theory Spec2Isabelle
  imports Main "HOL-Library.AList"
begin

section \<open>Values, messages and errors\<close>

text \<open>
  Python values that travel through tool arguments and results.  A \<open>dict\<close> is an
  association list: Python dictionaries keep insertion order, and iterating one
  yields its keys in that order.
\<close>

datatype pyval =
    PyNone
  | PyBool bool
  | PyInt int
  | PyStr string
  | PyList "pyval list"
  | PyDict "(string \<times> pyval) list"

type_synonym pydict = "(string \<times> pyval) list"

text \<open>\<open>pydantic_core.ErrorDetails\<close> is a typed dictionary.\<close>

type_synonym error_details = pydict

text \<open>
  The message classes live in the \<open>messages\<close> module; their fields are the ones
  \<open>_retriever.py\<close> and \<open>agent.py\<close> read and write.
\<close>

datatype args = ArgsJson string | ArgsObject pydict

record tool_call =
  tool_name :: string
  args :: args
  tool_id :: "string option"

text \<open>The content of a \<open>ToolRetry\<close>: \<open>list[ErrorDetails] | str\<close>.\<close>

datatype retry_content = ErrorList "error_details list" | RetryText string

datatype llm_message =
    LLMResponse string
  | LLMToolCalls "tool_call list"

datatype message =
    SystemPrompt string
  | UserPrompt string
  | ToolReturn string string "string option"
  | ToolRetry string retry_content "string option"
  | PlainResponseForbidden
  | LLM llm_message

text \<open>
  Exceptions that leave the modelled functions.  \<open>ValidationError\<close> and
  \<open>ModelRetry\<close> are the two exceptions \<open>Retriever.run\<close> handles; the bare
  \<open>raise\<close> of \<open>_on_error\<close> raises the handled one again.  The exceptions
  \<open>agent.py\<close> raises carry the value its message is formatted from:
  \<^item> \<open>NameConflict n\<close> is either \<open>ValueError\<close> of \<open>_register_retriever\<close>;
  \<^item> \<open>UnknownFunctionName n\<close> is \<open>ValueError(f'Unknown function name: {n!r}')\<close>;
  \<^item> \<open>ModelNotSet\<close> is the \<open>RuntimeError\<close> of \<open>run\<close> without a model;
  \<^item> \<open>ExceededMaximumRetries n\<close> is
    \<open>RuntimeError(f'Exceeded maximum retries ({n}) for result validation')\<close>.
\<close>

datatype error =
    ValidationError "error_details list"
  | ModelRetry string
  | KeyError string
  | TypeError
  | NameConflict string
  | UnknownFunctionName string
  | ModelNotSet
  | ExceededMaximumRetries int
  | OtherException string

section \<open>Retriever (\<open>_retriever.py\<close>)\<close>

text \<open>
  \<open>CallContext(deps, retry)\<close> is the first positional argument of a
  context-taking function; the other positional arguments are validated values.
\<close>

datatype 'd call_arg = CallContext 'd int | Positional pyval

text \<open>
  What calling the user's function does: it returns a string, raises
  \<open>ModelRetry(message)\<close>, or raises anything else.
\<close>

datatype fn_outcome = Returns string | RaisesModelRetry string | RaisesOther string

text \<open>
  The \<open>SchemaValidator\<close> of \<open>pydantic_core\<close>: each entry point returns the
  validated dictionary or raises \<open>ValidationError\<close>, whose \<open>errors()\<close> is the
  list on the left.
\<close>

record schema_validator =
  validate_json :: "string \<Rightarrow> error_details list + pydict"
  validate_python :: "pydict \<Rightarrow> error_details list + pydict"

text \<open>
  The \<open>Retriever\<close> dataclass.  \<open>func\<close> is \<open>function.whichever()\<close> and
  \<open>func_is_left\<close> is \<open>function.is_left()\<close>; \<open>current_retry\<close> is
  \<open>_current_retry\<close>, whose class-level default is 0.
\<close>

record 'd retriever =
  name :: string
  description :: string
  func :: "'d call_arg list \<Rightarrow> pydict \<Rightarrow> fn_outcome"
  func_is_left :: bool
  is_async :: bool
  single_arg_name :: "string option"
  positional_fields :: "string list"
  var_positional_field :: "string option"
  validator :: schema_validator
  json_schema :: pyval
  max_retries :: int
  current_retry :: int

definition reset :: "'d retriever \<Rightarrow> 'd retriever" where
  "reset r = r\<lparr>current_retry := 0\<rparr>"

text \<open>Truth value of a \<open>str | None\<close>: \<open>None\<close> and the empty string are false.\<close>

definition truthy :: "string option \<Rightarrow> bool" where
  "truthy s = (case s of None \<Rightarrow> False | Some n \<Rightarrow> n \<noteq> [])"

text \<open>\<open>dict.pop(key)\<close> raises \<open>KeyError\<close> on a missing key.\<close>

definition pop :: "string \<Rightarrow> pydict \<Rightarrow> error + (pyval \<times> pydict)" where
  "pop k d = (case map_of d k of
                None \<Rightarrow> Inl (KeyError k)
              | Some v \<Rightarrow> Inr (v, AList.delete k d))"

text \<open>The loop over \<open>positional_fields\<close>, appending each popped value.\<close>

fun pop_positional ::
  "string list \<Rightarrow> 'd call_arg list \<Rightarrow> pydict \<Rightarrow> error + ('d call_arg list \<times> pydict)" where
  "pop_positional [] as d = Inr (as, d)"
| "pop_positional (f # fs) as d =
     (case pop f d of
        Inl e \<Rightarrow> Inl e
      | Inr (v, d') \<Rightarrow> pop_positional fs (as @ [Positional v]) d')"

text \<open>
  \<open>list.extend(x)\<close> iterates \<open>x\<close>: a list gives its items, a string its
  characters, a dictionary its keys; the other values are not iterable.
\<close>

fun iterate :: "pyval \<Rightarrow> error + pyval list" where
  "iterate (PyList xs) = Inr xs"
| "iterate (PyStr s) = Inr (map (\<lambda>c. PyStr [c]) s)"
| "iterate (PyDict d) = Inr (map (\<lambda>kv. PyStr (fst kv)) d)"
| "iterate _ = Inl TypeError"

definition call_args ::
  "'d retriever \<Rightarrow> 'd \<Rightarrow> pydict \<Rightarrow> error + ('d call_arg list \<times> pydict)" where
  "call_args r deps args_dict =
     (let d0 = (if truthy (single_arg_name r)
                then [(the (single_arg_name r), PyDict args_dict)]
                else args_dict);
          as0 = (if func_is_left r then [CallContext deps (current_retry r)] else [])
      in case pop_positional (positional_fields r) as0 d0 of
           Inl e \<Rightarrow> Inl e
         | Inr (as1, d1) \<Rightarrow>
             if truthy (var_positional_field r)
             then (case pop (the (var_positional_field r)) d1 of
                     Inl e \<Rightarrow> Inl e
                   | Inr (v, d2) \<Rightarrow>
                       (case iterate v of
                          Inl e \<Rightarrow> Inl e
                        | Inr vs \<Rightarrow> Inr (as1 @ map Positional vs, d2)))
             else Inr (as1, d1))"

text \<open>
  \<open>_on_error\<close>: the counter is incremented first, then compared with
  \<open>max_retries\<close>.  \<open>exc\<close> is the exception being handled by the caller, which the
  bare \<open>raise\<close> raises again.  The updated retriever is returned in both cases:
  the increment is done before the exception leaves.
\<close>

definition on_error ::
  "'d retriever \<Rightarrow> error \<Rightarrow> retry_content \<Rightarrow> tool_call \<Rightarrow> 'd retriever \<times> (error + message)" where
  "on_error r exc content call_message =
     (let r' = r\<lparr>current_retry := current_retry r + 1\<rparr>
      in if current_retry r' > max_retries r'
         then (r', Inl exc)
         else (r', Inr (ToolRetry (tool_name call_message) content (tool_id call_message))))"

text \<open>The first \<open>try\<close> block of \<open>run\<close>: validation of the call's arguments.\<close>

definition validate_args :: "'d retriever \<Rightarrow> tool_call \<Rightarrow> error_details list + pydict" where
  "validate_args r message =
     (case args message of
        ArgsJson j \<Rightarrow> validate_json (validator r) j
      | ArgsObject ob \<Rightarrow> validate_python (validator r) ob)"

text \<open>
  \<open>Retriever.run\<close> is a coroutine with a single \<open>await\<close>, on the call of the
  user's function (directly when \<open>is_async\<close>, through the executor otherwise; both
  branches pass the same arguments).  Between two suspension points a coroutine
  runs without interruption, so \<open>run\<close> is two atomic segments: \<open>run_begin\<close> up
  to the \<open>await\<close>, and \<open>run_end\<close> from the resumption on.
\<close>

datatype progress = Finished "error + message" | Awaiting fn_outcome

definition run_begin :: "'d retriever \<Rightarrow> 'd \<Rightarrow> tool_call \<Rightarrow> 'd retriever \<times> progress" where
  "run_begin r deps message =
     (case validate_args r message of
        Inl errs \<Rightarrow>
          (case on_error r (ValidationError errs) (ErrorList errs) message of
             (r', res) \<Rightarrow> (r', Finished res))
      | Inr args_dict \<Rightarrow>
          (case call_args r deps args_dict of
             Inl e \<Rightarrow> (r, Finished (Inl e))
           | Inr (as, kwargs) \<Rightarrow> (r, Awaiting (func r as kwargs))))"

definition run_end ::
  "'d retriever \<Rightarrow> tool_call \<Rightarrow> fn_outcome \<Rightarrow> 'd retriever \<times> (error + message)" where
  "run_end r message outcome =
     (case outcome of
        RaisesModelRetry m \<Rightarrow> on_error r (ModelRetry m) (RetryText m) message
      | RaisesOther e \<Rightarrow> (r, Inl (OtherException e))
      | Returns response_content \<Rightarrow>
          (r\<lparr>current_retry := 0\<rparr>,
           Inr (ToolReturn (tool_name message) response_content (tool_id message))))"

text \<open>\<open>run\<close> awaited on its own: the two segments one after the other.\<close>

definition run :: "'d retriever \<Rightarrow> 'd \<Rightarrow> tool_call \<Rightarrow> 'd retriever \<times> (error + message)" where
  "run r deps message =
     (case run_begin r deps message of
        (r', Finished res) \<Rightarrow> (r', res)
      | (r', Awaiting outcome) \<Rightarrow> run_end r' message outcome)"

section \<open>Agent (\<open>agent.py\<close>)\<close>

text \<open>
  The result schema and the result validators come from the \<open>result\<close> module.  The
  agent reads a schema's \<open>name\<close> and \<open>allow_text_result\<close> and calls its
  \<open>validate\<close>, which returns the result or raises \<open>ToolRetryError\<close>; the left
  summand is that exception's \<open>tool_retry\<close> message.  A result validator's
  \<open>validate(result, deps, retry, tool_call)\<close> does the same.
\<close>

record result_schema =
  schema_name :: string
  schema_allow_text_result :: bool
  schema_validate :: "tool_call \<Rightarrow> message + pyval"

type_synonym 'd result_validator = "pyval \<Rightarrow> 'd \<Rightarrow> int \<Rightarrow> tool_call \<Rightarrow> message + pyval"

text \<open>
  A model is asked for an agent model with \<open>allow_text_result\<close>, the names of the
  tool definitions and the result tool's name; the agent model's \<open>request\<close> maps the
  conversation to the next message of the model.
\<close>

type_synonym agent_model = "message list \<Rightarrow> llm_message"

type_synonym model = "bool \<Rightarrow> string list \<Rightarrow> string option \<Rightarrow> agent_model"

text \<open>
  The \<open>Agent\<close> dataclass.  \<open>retrievers\<close> is the dictionary \<open>_retrievers\<close>, in
  insertion order.  \<open>'d\<close> is the type of what tools receive as \<open>deps\<close>, Python's
  \<open>None\<close> included.
\<close>

record 'd agent =
  model :: "model option"
  result_tool :: "result_schema option"
  result_validators :: "'d result_validator list"
  allow_text_result :: bool
  system_prompts :: "string list"
  retrievers :: "(string \<times> 'd retriever) list"
  default_retries :: int
  system_prompt_functions :: "('d \<Rightarrow> string) list"
  default_deps :: 'd
  max_result_retries :: int
  current_result_retry :: int

text \<open>
  \<open>__init__\<close>.  \<open>result_tool\<close> is what \<open>ResultSchema.build\<close> returned and
  \<open>deps\<close> the value stored as \<open>_default_deps\<close>.
\<close>

definition Agent_init ::
  "model option \<Rightarrow> result_schema option \<Rightarrow> string list \<Rightarrow> 'd \<Rightarrow> int \<Rightarrow> int option \<Rightarrow> 'd agent" where
  "Agent_init model_arg result_tool_arg system_prompt deps retries result_retries =
     \<lparr>model = model_arg,
      result_tool = result_tool_arg,
      result_validators = [],
      allow_text_result =
        (case result_tool_arg of None \<Rightarrow> True | Some t \<Rightarrow> schema_allow_text_result t),
      system_prompts = system_prompt,
      retrievers = [],
      default_retries = retries,
      system_prompt_functions = [],
      default_deps = deps,
      max_result_retries = (case result_retries of Some n \<Rightarrow> n | None \<Rightarrow> retries),
      current_result_retry = 0\<rparr>"

text \<open>
  \<open>_register_retriever\<close>.  \<open>r\<close> is the retriever as \<open>function_schema\<close> describes
  the function; \<open>Retriever.__init__\<close> stores \<open>retries_\<close> as its \<open>max_retries\<close>
  and leaves the counter at its default.
\<close>

definition register_retriever ::
  "'d agent \<Rightarrow> 'd retriever \<Rightarrow> int option \<Rightarrow> error + 'd agent" where
  "register_retriever a r retries =
     (let retries' = (case retries of Some n \<Rightarrow> n | None \<Rightarrow> default_retries a);
          retriever = r\<lparr>max_retries := retries', current_retry := 0\<rparr>
      in if (case result_tool a of None \<Rightarrow> False | Some t \<Rightarrow> schema_name t = name retriever)
         then Inl (NameConflict (name retriever))
         else if map_of (retrievers a) (name retriever) \<noteq> None
         then Inl (NameConflict (name retriever))
         else Inr (a\<lparr>retrievers := retrievers a @ [(name retriever, retriever)]\<rparr>))"

definition result_validator :: "'d agent \<Rightarrow> 'd result_validator \<Rightarrow> 'd agent" where
  "result_validator a f = a\<lparr>result_validators := result_validators a @ [f]\<rparr>"

definition init_messages :: "'d agent \<Rightarrow> 'd \<Rightarrow> message list" where
  "init_messages a deps =
     map SystemPrompt (system_prompts a)
     @ map (\<lambda>runner. SystemPrompt (runner deps)) (system_prompt_functions a)"

text \<open>\<open>_incr_result_retry\<close>; the right component is the exception raised, if any.\<close>

definition incr_result_retry :: "'d agent \<Rightarrow> 'd agent \<times> error option" where
  "incr_result_retry a =
     (let a' = a\<lparr>current_result_retry := current_result_retry a + 1\<rparr>
      in if current_result_retry a' > max_result_retries a'
         then (a', Some (ExceededMaximumRetries (max_result_retries a')))
         else (a', None))"

text \<open>\<open>_validate_result\<close>: the validators in registration order.\<close>

fun validate_result ::
  "'d result_validator list \<Rightarrow> pyval \<Rightarrow> 'd \<Rightarrow> int \<Rightarrow> tool_call \<Rightarrow> message + pyval" where
  "validate_result [] result deps retry call = Inr result"
| "validate_result (v # vs) result deps retry call =
     (case v result deps retry call of
        Inl tool_retry \<Rightarrow> Inl tool_retry
      | Inr result' \<Rightarrow> validate_result vs result' deps retry call)"

text \<open>The body of the \<open>try\<close> of \<open>_handle_model_response\<close>.\<close>

definition validate_result_call ::
  "'d agent \<Rightarrow> result_schema \<Rightarrow> 'd \<Rightarrow> tool_call \<Rightarrow> message + pyval" where
  "validate_result_call a t deps call =
     (case schema_validate t call of
        Inl tool_retry \<Rightarrow> Inl tool_retry
      | Inr result \<Rightarrow>
          validate_result (result_validators a) result deps (current_result_retry a) call)"

text \<open>
  The call the result schema is authoritative for: the first call of the turn that
  names the schema, when a schema is configured.
\<close>

definition result_call :: "'d agent \<Rightarrow> tool_call list \<Rightarrow> (result_schema \<times> tool_call) option" where
  "result_call a calls =
     (case result_tool a of
        None \<Rightarrow> None
      | Some t \<Rightarrow>
          (case find (\<lambda>c. tool_name c = schema_name t) calls of
             None \<Rightarrow> None
           | Some call \<Rightarrow> Some (t, call)))"

text \<open>
  The loop that builds \<open>coros\<close>: the first call whose name is not a key of
  \<open>_retrievers\<close> raises before any coroutine has started to run.
\<close>

fun unknown_call :: "(string \<times> 'd retriever) list \<Rightarrow> tool_call list \<Rightarrow> error option" where
  "unknown_call rs [] = None"
| "unknown_call rs (c # cs) =
     (case map_of rs (tool_name c) of
        None \<Rightarrow> Some (UnknownFunctionName (tool_name c))
      | Some r \<Rightarrow> unknown_call rs cs)"

subsection \<open>\<open>asyncio.gather\<close> over the coroutines of one turn\<close>

text \<open>
  Each coroutine is \<open>retriever.run(deps, call)\<close> on the retriever object found under
  the call's name; the objects are shared, so the store of retrievers is threaded
  through every step.  A coroutine has not started, is suspended at its \<open>await\<close>
  with the outcome the function call will deliver, or has returned its message.
\<close>

datatype task = NotStarted | Suspended fn_outcome | Completed message

text \<open>
  One step of the event loop on the coroutine of \<open>call\<close>.  The retriever is the one
  \<open>_handle_model_response\<close> found under the call's name when it built the
  coroutine, so the lookup does not fail; a step changes no key of the store.
\<close>

definition step_task ::
  "(string \<times> 'd retriever) list \<Rightarrow> 'd \<Rightarrow> tool_call \<Rightarrow> task
     \<Rightarrow> (string \<times> 'd retriever) list \<times> (error + task)" where
  "step_task rs deps call t =
     (let n = tool_name call; r = the (map_of rs n)
      in case t of
           NotStarted \<Rightarrow>
             (case run_begin r deps call of
                (r', Finished (Inl e)) \<Rightarrow> (AList.update n r' rs, Inl e)
              | (r', Finished (Inr m)) \<Rightarrow> (AList.update n r' rs, Inr (Completed m))
              | (r', Awaiting outcome) \<Rightarrow> (AList.update n r' rs, Inr (Suspended outcome)))
         | Suspended outcome \<Rightarrow>
             (case run_end r call outcome of
                (r', Inl e) \<Rightarrow> (AList.update n r' rs, Inl e)
              | (r', Inr m) \<Rightarrow> (AList.update n r' rs, Inr (Completed m)))
         | Completed m \<Rightarrow> (rs, Inr (Completed m)))"

text \<open>
  The event loop steps the coroutines in some order: \<open>evs\<close> lists the indices of the
  coroutines it steps, one step each.  The first exception ends the \<open>gather\<close>: it is
  raised in the awaiting caller at once.
\<close>

fun run_events ::
  "(string \<times> 'd retriever) list \<Rightarrow> 'd \<Rightarrow> tool_call list \<Rightarrow> task list \<Rightarrow> nat list
     \<Rightarrow> (string \<times> 'd retriever) list \<times> (error + task list)" where
  "run_events rs deps calls ts [] = (rs, Inr ts)"
| "run_events rs deps calls ts (i # evs) =
     (if i < length ts
      then (case step_task rs deps (calls ! i) (ts ! i) of
              (rs', Inl e) \<Rightarrow> (rs', Inl e)
            | (rs', Inr t) \<Rightarrow> run_events rs' deps calls (ts[i := t]) evs)
      else run_events rs deps calls ts evs)"

text \<open>Driving one coroutine to its end, from the state it is in.\<close>

definition finish_task ::
  "(string \<times> 'd retriever) list \<Rightarrow> 'd \<Rightarrow> tool_call \<Rightarrow> task
     \<Rightarrow> (string \<times> 'd retriever) list \<times> (error + message)" where
  "finish_task rs deps call t =
     (let n = tool_name call; r = the (map_of rs n)
      in case t of
           NotStarted \<Rightarrow>
             (case run r deps call of (r', res) \<Rightarrow> (AList.update n r' rs, res))
         | Suspended outcome \<Rightarrow>
             (case run_end r call outcome of (r', res) \<Rightarrow> (AList.update n r' rs, res))
         | Completed m \<Rightarrow> (rs, Inr m))"

text \<open>
  The results are collected in the order of the coroutines passed to \<open>gather\<close>,
  each coroutine that has not returned yet being driven to its end.
\<close>

fun collect ::
  "(string \<times> 'd retriever) list \<Rightarrow> 'd \<Rightarrow> (tool_call \<times> task) list
     \<Rightarrow> (string \<times> 'd retriever) list \<times> (error + message list)" where
  "collect rs deps [] = (rs, Inr [])"
| "collect rs deps ((call, t) # cts) =
     (case finish_task rs deps call t of
        (rs', Inl e) \<Rightarrow> (rs', Inl e)
      | (rs', Inr m) \<Rightarrow>
          (case collect rs' deps cts of
             (rs'', Inl e) \<Rightarrow> (rs'', Inl e)
           | (rs'', Inr ms) \<Rightarrow> (rs'', Inr (m # ms))))"

definition gather ::
  "(string \<times> 'd retriever) list \<Rightarrow> 'd \<Rightarrow> tool_call list \<Rightarrow> nat list
     \<Rightarrow> (string \<times> 'd retriever) list \<times> (error + message list)" where
  "gather rs deps calls evs =
     (case run_events rs deps calls (replicate (length calls) NotStarted) evs of
        (rs', Inl e) \<Rightarrow> (rs', Inl e)
      | (rs', Inr ts) \<Rightarrow> collect rs' deps (zip calls ts))"

subsection \<open>One model turn and the run loop\<close>

text \<open>
  \<open>_handle_model_response\<close>.  The result is the agent after the turn, the
  conversation after it (the list is appended to in place, also when an exception
  leaves), and either the exception or the optional result: \<open>None\<close> continues the
  conversation.  \<open>evs\<close> is the order in which the event loop steps the coroutines of
  this turn.
\<close>

definition handle_model_response ::
  "'d agent \<Rightarrow> message list \<Rightarrow> llm_message \<Rightarrow> 'd \<Rightarrow> nat list
     \<Rightarrow> 'd agent \<times> message list \<times> (error + pyval option)" where
  "handle_model_response a messages llm_message deps evs =
     (let messages1 = messages @ [LLM llm_message]
      in case llm_message of
           LLMResponse content \<Rightarrow>
             if allow_text_result a
             then (a, messages1, Inr (Some (PyStr content)))
             else (a, messages1 @ [PlainResponseForbidden], Inr None)
         | LLMToolCalls calls \<Rightarrow>
             (case result_call a calls of
                Some (t, call) \<Rightarrow>
                  (case validate_result_call a t deps call of
                     Inl tool_retry \<Rightarrow>
                       (case incr_result_retry a of
                          (a', Some e) \<Rightarrow> (a', messages1, Inl e)
                        | (a', None) \<Rightarrow> (a', messages1 @ [tool_retry], Inr None))
                   | Inr result \<Rightarrow> (a, messages1, Inr (Some result)))
              | None \<Rightarrow>
                  (case unknown_call (retrievers a) calls of
                     Some e \<Rightarrow> (a, messages1, Inl e)
                   | None \<Rightarrow>
                       (case gather (retrievers a) deps calls evs of
                          (rs', Inl e) \<Rightarrow> (a\<lparr>retrievers := rs'\<rparr>, messages1, Inl e)
                        | (rs', Inr ms) \<Rightarrow> (a\<lparr>retrievers := rs'\<rparr>, messages1 @ ms, Inr None)))))"

text \<open>\<open>RunResult(value, messages, cost=Cost(0))\<close>.\<close>

datatype run_result = RunResult pyval "message list" int

text \<open>
  The \<open>while True\<close> of \<open>run\<close>.  A loop that never ends has the value \<open>None\<close>.
  \<open>sched\<close> gives, for the conversation a turn starts from, the order in which the
  coroutines of that turn are stepped.
\<close>

partial_function (option) run_loop ::
  "agent_model \<Rightarrow> (message list \<Rightarrow> nat list) \<Rightarrow> 'd agent \<Rightarrow> 'd \<Rightarrow> message list
     \<Rightarrow> ('d agent \<times> (error + run_result)) option" where
  "run_loop request sched a deps messages =
     (case handle_model_response a messages (request messages) deps (sched messages) of
        (a', messages', Inl e) \<Rightarrow> Some (a', Inl e)
      | (a', messages', Inr (Some v)) \<Rightarrow> Some (a', Inr (RunResult v messages' 0))
      | (a', messages', Inr None) \<Rightarrow> run_loop request sched a' deps messages')"

text \<open>
  \<open>Agent.run\<close>.  \<open>model_arg\<close> and \<open>deps_arg\<close> are the optional keyword
  arguments \<open>model\<close> and \<open>deps\<close>.
\<close>

definition reset_retrievers :: "'d agent \<Rightarrow> 'd agent" where
  "reset_retrievers a = a\<lparr>retrievers := map (\<lambda>(n, r). (n, reset r)) (retrievers a)\<rparr>"

text \<open>The model of the run: the argument if given, else the agent's own.\<close>

definition select_model :: "'d agent \<Rightarrow> model option \<Rightarrow> model option" where
  "select_model a model_arg = (case model_arg of Some m \<Rightarrow> Some m | None \<Rightarrow> model a)"

definition select_deps :: "'d agent \<Rightarrow> 'd option \<Rightarrow> 'd" where
  "select_deps a deps_arg = (case deps_arg of None \<Rightarrow> default_deps a | Some d \<Rightarrow> d)"

text \<open>
  The conversation the first request is made with: the history given (a copy), or
  the system prompts, and then the user prompt.
\<close>

definition start_messages :: "'d agent \<Rightarrow> message list option \<Rightarrow> 'd \<Rightarrow> string \<Rightarrow> message list" where
  "start_messages a message_history deps user_prompt =
     (case message_history of Some h \<Rightarrow> h | None \<Rightarrow> init_messages a deps)
     @ [UserPrompt user_prompt]"

text \<open>\<open>model_.agent_model(self._allow_text_result, functions, result_tool_name)\<close>.\<close>

definition make_agent_model :: "'d agent \<Rightarrow> model \<Rightarrow> agent_model" where
  "make_agent_model a m =
     (let functions = map fst (retrievers a)
                      @ (case result_tool a of None \<Rightarrow> [] | Some t \<Rightarrow> [schema_name t]);
          result_tool_name = map_option schema_name (result_tool a)
      in m (allow_text_result a) functions result_tool_name)"

definition agent_run ::
  "'d agent \<Rightarrow> (message list \<Rightarrow> nat list) \<Rightarrow> string \<Rightarrow> message list option
     \<Rightarrow> model option \<Rightarrow> 'd option \<Rightarrow> ('d agent \<times> (error + run_result)) option" where
  "agent_run a sched user_prompt message_history model_arg deps_arg =
     (case select_model a model_arg of
        None \<Rightarrow> Some (a, Inl ModelNotSet)
      | Some model' \<Rightarrow>
          (let deps = select_deps a deps_arg;
               messages = start_messages a message_history deps user_prompt;
               agent_model = make_agent_model a model'
           in run_loop agent_model sched (reset_retrievers a) deps messages))"

section \<open>Drivers and examples used to state the properties\<close>

text \<open>
  A call fails recoverably in two ways: its arguments do not validate, or they do and
  the function raises \<open>ModelRetry\<close>.  \<open>failure\<close> gives the exception that is being
  handled and the content handed to \<open>_on_error\<close>, or \<open>None\<close> when the call does not
  fail in either way.
\<close>

definition failure :: "'d retriever \<Rightarrow> 'd \<Rightarrow> tool_call \<Rightarrow> (error \<times> retry_content) option" where
  "failure r deps message =
     (case validate_args r message of
        Inl errs \<Rightarrow> Some (ValidationError errs, ErrorList errs)
      | Inr args_dict \<Rightarrow>
          (case call_args r deps args_dict of
             Inl e \<Rightarrow> None
           | Inr (as, kwargs) \<Rightarrow>
               (case func r as kwargs of
                  RaisesModelRetry m \<Rightarrow> Some (ModelRetry m, RetryText m)
                | _ \<Rightarrow> None)))"

text \<open>
  \<open>run\<close> applied to one call after the other on the same retriever; the trace holds
  the retriever and the outcome after each call.
\<close>

fun run_consecutive ::
  "'d retriever \<Rightarrow> 'd \<Rightarrow> tool_call list \<Rightarrow> ('d retriever \<times> (error + message)) list" where
  "run_consecutive r deps [] = []"
| "run_consecutive r deps (c # cs) =
     (case run r deps c of (r', res) \<Rightarrow> (r', res) # run_consecutive r' deps cs)"

text \<open>
  Plain text is an acceptable result when no result schema is configured, or the
  schema allows text.
\<close>

definition plain_text_accepted :: "'d agent \<Rightarrow> bool" where
  "plain_text_accepted a =
     (case result_tool a of None \<Rightarrow> True | Some t \<Rightarrow> schema_allow_text_result t)"

text \<open>
  The agents a program can hold: built by the constructor, then changed only by
  registering retrievers and result validators and by the steps of \<open>run\<close>.
\<close>

inductive reachable :: "'d agent \<Rightarrow> bool" where
  init: "reachable (Agent_init m t sp d n rr)"
| register: "reachable a \<Longrightarrow> register_retriever a r n = Inr a' \<Longrightarrow> reachable a'"
| validator: "reachable a \<Longrightarrow> reachable (result_validator a f)"
| reset: "reachable a \<Longrightarrow> reachable (reset_retrievers a)"
| turn: "reachable a \<Longrightarrow> handle_model_response a ms llm deps evs = (a', ms', out) \<Longrightarrow> reachable a'"

text \<open>
  A turn fails result validation when it holds a call the result schema is
  authoritative for, and the schema or one of the result validators rejects it.
\<close>

definition result_validation_fails :: "'d agent \<Rightarrow> llm_message \<Rightarrow> 'd \<Rightarrow> bool" where
  "result_validation_fails a llm deps =
     (case llm of
        LLMResponse content \<Rightarrow> False
      | LLMToolCalls calls \<Rightarrow>
          (case result_call a calls of
             None \<Rightarrow> False
           | Some (t, call) \<Rightarrow> isl (validate_result_call a t deps call)))"

text \<open>
  A message answers a call when it is a \<open>ToolReturn\<close> or a \<open>ToolRetry\<close> with the
  call's \<open>tool_name\<close> and \<open>tool_id\<close>.
\<close>

definition answers :: "tool_call \<Rightarrow> message \<Rightarrow> bool" where
  "answers c m =
     (case m of
        ToolReturn n content i \<Rightarrow> n = tool_name c \<and> i = tool_id c
      | ToolRetry n content i \<Rightarrow> n = tool_name c \<and> i = tool_id c
      | _ \<Rightarrow> False)"

definition task_ok :: "tool_call \<Rightarrow> task \<Rightarrow> bool" where
  "task_ok c t = (case t of Completed m \<Rightarrow> answers c m | _ \<Rightarrow> True)"

text \<open>A tool is called in a turn when one of the turn's calls names it.\<close>

definition called :: "string \<Rightarrow> llm_message \<Rightarrow> bool" where
  "called n llm =
     (case llm of
        LLMResponse content \<Rightarrow> False
      | LLMToolCalls calls \<Rightarrow> n \<in> tool_name ` set calls)"

text \<open>
  The scenario of the specification: \<open>get_weather(city: str) -> str\<close>.  Its validator
  accepts a dictionary whose \<open>city\<close> is a string; the function asks for a retry on a
  city it does not know.
\<close>

definition city_error :: error_details where
  "city_error = [(''type'', PyStr ''string_type''), (''loc'', PyList [PyStr ''city''])]"

definition city_validator :: schema_validator where
  "city_validator =
     \<lparr>validate_json = (\<lambda>j. Inl [city_error]),
      validate_python = (\<lambda>d. case map_of d ''city'' of
                                 Some (PyStr s) \<Rightarrow> Inr [(''city'', PyStr s)]
                               | _ \<Rightarrow> Inl [city_error])\<rparr>"

definition weather_report :: "unit call_arg list \<Rightarrow> pydict \<Rightarrow> fn_outcome" where
  "weather_report as kwargs =
     (case as of
        [Positional (PyStr c)] \<Rightarrow>
          if c = ''Atlantis'' then RaisesModelRetry ''unknown city''
          else Returns (''sunny in '' @ c)
      | _ \<Rightarrow> RaisesOther ''TypeError'')"

definition get_weather :: "int \<Rightarrow> unit retriever" where
  "get_weather n =
     \<lparr>name = ''get_weather'', description = ''weather of a city'',
      func = weather_report, func_is_left = False, is_async = False,
      single_arg_name = None, positional_fields = [''city''],
      var_positional_field = None, validator = city_validator,
      json_schema = PyDict [], max_retries = n, current_retry = 0\<rparr>"

definition weather_call :: "pyval \<Rightarrow> string \<Rightarrow> tool_call" where
  "weather_call city i =
     \<lparr>tool_name = ''get_weather'', args = ArgsObject [(''city'', city)], tool_id = Some i\<rparr>"

definition two_failures :: "tool_call list" where
  "two_failures = [weather_call (PyInt 123) ''a'', weather_call (PyStr ''Atlantis'') ''b'']"

text \<open>
  An agent with a result schema \<open>final_result\<close> that does not allow plain text,
  tools that differ from \<open>get_weather\<close> in their name only, and models that
  answer from a script.
\<close>

definition tool :: "string \<Rightarrow> int \<Rightarrow> unit retriever" where
  "tool nm n = (get_weather n)\<lparr>name := nm\<rparr>"

definition city_call :: "string \<Rightarrow> pyval \<Rightarrow> string \<Rightarrow> tool_call" where
  "city_call nm city i = \<lparr>tool_name = nm, args = ArgsObject [(''city'', city)], tool_id = Some i\<rparr>"

definition missing_answer :: "tool_call \<Rightarrow> message" where
  "missing_answer c =
     ToolRetry ''final_result'' (ErrorList [[(''type'', PyStr ''missing''), (''loc'', PyList [PyStr ''answer''])]])
       (tool_id c)"

definition final_result :: result_schema where
  "final_result =
     \<lparr>schema_name = ''final_result'', schema_allow_text_result = False,
      schema_validate = (\<lambda>c. case args c of
                                 ArgsJson j \<Rightarrow> Inl (missing_answer c)
                               | ArgsObject d \<Rightarrow>
                                   (case map_of d ''answer'' of
                                      None \<Rightarrow> Inl (missing_answer c)
                                    | Some v \<Rightarrow> Inr v))\<rparr>"

definition answer_call :: "pydict \<Rightarrow> string \<Rightarrow> tool_call" where
  "answer_call d i = \<lparr>tool_name = ''final_result'', args = ArgsObject d, tool_id = Some i\<rparr>"

text \<open>A model that answers from a script, by the number of its earlier messages.\<close>

definition is_llm :: "message \<Rightarrow> bool" where
  "is_llm m = (case m of LLM x \<Rightarrow> True | _ \<Rightarrow> False)"

definition scripted :: "llm_message list \<Rightarrow> model" where
  "scripted script allow functions result_name messages =
     (let k = length (filter is_llm messages)
      in if k < length script then script ! k else LLMResponse ''done'')"

definition text_agent :: "unit agent" where
  "text_agent = Agent_init None None [''be brief''] () 1 None"

definition result_agent :: "unit agent" where
  "result_agent = Agent_init None (Some final_result) [] () 1 None"

definition tools_agent :: "unit agent" where
  "tools_agent =
     result_agent\<lparr>retrievers :=
       [(''weather'', tool ''weather'' 1), (''tides'', tool ''tides'' 1), (''winds'', tool ''winds'' 1)]\<rparr>"

definition three_calls :: "tool_call list" where
  "three_calls =
     [city_call ''weather'' (PyStr ''Paris'') ''A'', city_call ''tides'' (PyInt 7) ''B'',
      city_call ''winds'' (PyStr ''Rome'') ''C'']"

definition mixed_calls :: "tool_call list" where
  "mixed_calls =
     [city_call ''weather'' (PyStr ''Paris'') ''A'', answer_call [] ''R'',
      city_call ''tides'' (PyInt 7) ''B'']"

definition unknown_calls :: "tool_call list" where
  "unknown_calls = [city_call ''weather'' (PyStr ''Paris'') ''A'', city_call ''moon'' (PyInt 7) ''B'']"

definition bad_turn :: llm_message where
  "bad_turn = LLMToolCalls [answer_call [] ''R1'']"

definition good_turn :: llm_message where
  "good_turn = LLMToolCalls [answer_call [(''answer'', PyInt 42)] ''R2'']"

definition asking_agent :: "unit agent" where
  "asking_agent = result_agent\<lparr>model := Some (scripted [bad_turn, good_turn])\<rparr>"

definition tides_turn :: "string \<Rightarrow> llm_message" where
  "tides_turn i = LLMToolCalls [city_call ''tides'' (PyInt 7) i]"

definition sailing_agent :: "unit agent" where
  "sailing_agent =
     result_agent\<lparr>model := Some (scripted [tides_turn ''T1'', tides_turn ''T2'']),
       retrievers := [(''weather'', tool ''weather'' 1), (''tides'', (tool ''tides'' 1)\<lparr>current_retry := 1\<rparr>)]\<rparr>"

section \<open>Properties of \<open>Retriever.run\<close>\<close>

lemma run_failure:
  "failure r deps c = Some (exc, content) \<Longrightarrow> run r deps c = on_error r exc content c"
  by (auto simp: failure_def run_def run_begin_def run_end_def
      split: sum.splits prod.splits fn_outcome.splits)

lemma length_run_consecutive [simp]: "length (run_consecutive r deps cs) = length cs"
  by (induction cs arbitrary: r) (auto split: prod.splits)

text \<open>
  When every call of a sequence fails in the state it is run in, the counter after
  the \<open>i\<close>-th call (counting from 0) is \<open>i + 1\<close> above its start, and the call is
  answered by a \<open>ToolRetry\<close> as long as that value does not exceed \<open>max_retries\<close>.
\<close>

lemma run_consecutive_failures:
  "\<forall>i<length cs. failure ((r # map fst (run_consecutive r deps cs)) ! i) deps (cs ! i) \<noteq> None \<Longrightarrow>
   i < length cs \<Longrightarrow>
   (\<exists>exc content.
      run_consecutive r deps cs ! i =
        (r\<lparr>current_retry := current_retry r + int i + 1\<rparr>,
         if current_retry r + int i + 1 \<le> max_retries r
         then Inr (ToolRetry (tool_name (cs ! i)) content (tool_id (cs ! i)))
         else Inl exc))"
proof (induction cs arbitrary: r i)
  case Nil
  then show ?case by simp
next
  case (Cons c cs)
  from Cons.prems(1) have "failure r deps c \<noteq> None" by fastforce
  then obtain exc content where f: "failure r deps c = Some (exc, content)" by auto
  let ?r' = "r\<lparr>current_retry := current_retry r + 1\<rparr>"
  have run_c: "run r deps c = (?r', if current_retry r + 1 \<le> max_retries r
         then Inr (ToolRetry (tool_name c) content (tool_id c)) else Inl exc)"
    using run_failure[OF f] by (simp add: on_error_def Let_def)
  show ?case
  proof (cases i)
    case 0
    then show ?thesis using run_c by auto
  next
    case (Suc j)
    have "\<forall>i<length cs. failure ((?r' # map fst (run_consecutive ?r' deps cs)) ! i) deps (cs ! i) \<noteq> None"
    proof (intro allI impI)
      fix k assume "k < length cs"
      then have "failure ((r # map fst (run_consecutive r deps (c # cs))) ! Suc k) deps ((c # cs) ! Suc k) \<noteq> None"
        using Cons.prems(1) by (metis Suc_less_eq length_Cons)
      then show "failure ((?r' # map fst (run_consecutive ?r' deps cs)) ! k) deps (cs ! k) \<noteq> None"
        using run_c by simp
    qed
    from Cons.IH[OF this, of j] Suc Cons.prems(2) run_c show ?thesis
      by (auto simp: algebra_simps)
  qed
qed

lemma failure_bad_city:
  "failure (get_weather n\<lparr>current_retry := k\<rparr>) () (weather_call (PyInt 123) i)
     = Some (ValidationError [city_error], ErrorList [city_error])"
  by (simp add: failure_def validate_args_def get_weather_def weather_call_def
      city_validator_def)

lemma failure_unknown_city:
  "failure (get_weather n\<lparr>current_retry := k\<rparr>) () (weather_call (PyStr ''Atlantis'') i)
     = Some (ModelRetry ''unknown city'', RetryText ''unknown city'')"
  by (simp add: failure_def validate_args_def get_weather_def weather_call_def
      city_validator_def call_args_def truthy_def pop_def weather_report_def)

text \<open>
  Claim C1.  A tool has \<open>max_retries = N\<close> and its counter is 0.  \<open>run\<close> is called
  \<open>N + 1\<close> times in a row and every call fails (its arguments do not validate, or
  the function raises \<open>ModelRetry\<close>).  Then each of the first \<open>N\<close> calls returns a
  \<open>ToolRetry\<close> for its call and leaves the counter at 1, 2, ..., \<open>N\<close>, and the
  \<open>(N+1)\<close>-th call raises, with the counter at \<open>N + 1\<close>.
\<close>

theorem retries_then_fatal:
  assumes "current_retry r = 0" and "max_retries r = int N" and "length cs = Suc N"
    and "\<forall>i<Suc N. failure ((r # map fst (run_consecutive r deps cs)) ! i) deps (cs ! i) \<noteq> None"
  shows "(\<forall>i<N. \<exists>content. run_consecutive r deps cs ! i =
            (r\<lparr>current_retry := int (Suc i)\<rparr>,
             Inr (ToolRetry (tool_name (cs ! i)) content (tool_id (cs ! i)))))
       \<and> (\<exists>exc. run_consecutive r deps cs ! N = (r\<lparr>current_retry := int (Suc N)\<rparr>, Inl exc))"
proof -
  have all: "\<forall>i<length cs. failure ((r # map fst (run_consecutive r deps cs)) ! i) deps (cs ! i) \<noteq> None"
    using assms(3,4) by simp
  have step: "\<exists>exc content. run_consecutive r deps cs ! i =
        (r\<lparr>current_retry := int (Suc i)\<rparr>,
         if int (Suc i) \<le> int N
         then Inr (ToolRetry (tool_name (cs ! i)) content (tool_id (cs ! i)))
         else Inl exc)" if "i < Suc N" for i
    using run_consecutive_failures[OF all, of i] that assms(1,2,3) by (simp add: add.commute)
  have a: "\<forall>i<N. \<exists>content. run_consecutive r deps cs ! i =
            (r\<lparr>current_retry := int (Suc i)\<rparr>,
             Inr (ToolRetry (tool_name (cs ! i)) content (tool_id (cs ! i))))"
  proof (intro allI impI)
    fix i assume "i < N"
    with step[of i] show "\<exists>content. run_consecutive r deps cs ! i =
            (r\<lparr>current_retry := int (Suc i)\<rparr>,
             Inr (ToolRetry (tool_name (cs ! i)) content (tool_id (cs ! i))))"
      by auto
  qed
  have b: "\<exists>exc. run_consecutive r deps cs ! N = (r\<lparr>current_retry := int (Suc N)\<rparr>, Inl exc)"
    using step[of N] by auto
  from a b show ?thesis by blast
qed

theorem retries_then_fatal_witness:
  "current_retry (get_weather 1) = 0 \<and> max_retries (get_weather 1) = int 1
   \<and> length two_failures = Suc 1
   \<and> failure (get_weather 1) () (two_failures ! 0) \<noteq> None
   \<and> failure (fst (run_consecutive (get_weather 1) () two_failures ! 0)) () (two_failures ! 1) \<noteq> None
   \<and> (\<exists>content. run_consecutive (get_weather 1) () two_failures ! 0 =
            (get_weather 1\<lparr>current_retry := 1\<rparr>,
             Inr (ToolRetry ''get_weather'' content (Some ''a''))))
   \<and> (\<exists>exc. run_consecutive (get_weather 1) () two_failures ! 1 =
            (get_weather 1\<lparr>current_retry := 2\<rparr>, Inl exc))"
proof -
  have h1: "current_retry (get_weather 1) = 0" by (simp add: get_weather_def)
  have h2: "max_retries (get_weather 1) = int 1" by (simp add: get_weather_def)
  have h3: "length two_failures = Suc 1" by (simp add: two_failures_def)
  have f0: "failure (get_weather 1) () (two_failures ! 0) \<noteq> None"
    using failure_bad_city[where n=1 and k=0 and i="''a''"]
    by (simp add: get_weather_def two_failures_def)
  have r0: "run (get_weather 1) () (weather_call (PyInt 123) ''a'')
            = (get_weather 1\<lparr>current_retry := 1\<rparr>,
               Inr (ToolRetry ''get_weather'' (ErrorList [city_error]) (Some ''a'')))"
    using run_failure[OF failure_bad_city[where n=1 and k=0 and i="''a''"]]
    by (simp add: get_weather_def on_error_def weather_call_def)
  have f1: "failure (fst (run_consecutive (get_weather 1) () two_failures ! 0)) ()
              (two_failures ! 1) \<noteq> None"
    using failure_unknown_city[where n=1 and k=1 and i="''b''"] r0
    by (simp add: two_failures_def)
  have h4: "\<forall>i<Suc 1. failure ((get_weather 1 # map fst (run_consecutive (get_weather 1) () two_failures)) ! i)
                    () (two_failures ! i) \<noteq> None"
  proof (intro allI impI)
    fix i :: nat assume "i < Suc 1"
    then consider "i = 0" | "i = 1" by linarith
    then show "failure ((get_weather 1 # map fst (run_consecutive (get_weather 1) () two_failures)) ! i)
                    () (two_failures ! i) \<noteq> None"
    proof cases
      case 1
      then show ?thesis using f0 by simp
    next
      case 2
      then show ?thesis using f1 h3 by simp
    qed
  qed
  have concl: "(\<forall>i<1. \<exists>content. run_consecutive (get_weather 1) () two_failures ! i =
            (get_weather 1\<lparr>current_retry := int (Suc i)\<rparr>,
             Inr (ToolRetry (tool_name (two_failures ! i)) content (tool_id (two_failures ! i)))))
       \<and> (\<exists>exc. run_consecutive (get_weather 1) () two_failures ! 1 =
            (get_weather 1\<lparr>current_retry := int (Suc 1)\<rparr>, Inl exc))"
    by (rule retries_then_fatal[OF h1 h2 h3 h4])
  have c0: "\<exists>content. run_consecutive (get_weather 1) () two_failures ! 0 =
            (get_weather 1\<lparr>current_retry := 1\<rparr>,
             Inr (ToolRetry ''get_weather'' content (Some ''a'')))"
    using concl by (simp add: two_failures_def weather_call_def)
  have c1: "\<exists>exc. run_consecutive (get_weather 1) () two_failures ! 1 =
            (get_weather 1\<lparr>current_retry := 2\<rparr>, Inl exc)"
    using concl by simp
  from h1 h2 h3 f0 f1 c0 c1 show ?thesis by blast
qed

lemma validate_bad_city:
  "validate_args (get_weather n\<lparr>current_retry := k\<rparr>) (weather_call (PyInt 123) i) = Inl [city_error]"
  by (simp add: validate_args_def get_weather_def weather_call_def city_validator_def)

text \<open>
  Claim C2, as the code has it.  When the arguments of a call do not validate,
  \<open>run\<close> increments the tool's counter; it returns a \<open>ToolRetry\<close> whose content
  is the list of field errors if the incremented counter is at most \<open>max_retries\<close>,
  and raises the \<open>ValidationError\<close> otherwise.
\<close>

theorem validation_failure_retry_or_fatal:
  assumes "validate_args r c = Inl errs"
  shows "run r deps c =
           (r\<lparr>current_retry := current_retry r + 1\<rparr>,
            if current_retry r + 1 \<le> max_retries r
            then Inr (ToolRetry (tool_name c) (ErrorList errs) (tool_id c))
            else Inl (ValidationError errs))"
  using assms by (simp add: run_def run_begin_def on_error_def Let_def)

theorem validation_failure_retry_or_fatal_witness:
  "validate_args (get_weather 1\<lparr>current_retry := 0\<rparr>) (weather_call (PyInt 123) ''a'') = Inl [city_error]
   \<and> run (get_weather 1\<lparr>current_retry := 0\<rparr>) () (weather_call (PyInt 123) ''a'') =
        (get_weather 1\<lparr>current_retry := 1\<rparr>,
         Inr (ToolRetry ''get_weather'' (ErrorList [city_error]) (Some ''a'')))
   \<and> run (get_weather 1\<lparr>current_retry := 1\<rparr>) () (weather_call (PyInt 123) ''a'') =
        (get_weather 1\<lparr>current_retry := 2\<rparr>, Inl (ValidationError [city_error]))"
  using validation_failure_retry_or_fatal[OF validate_bad_city[where n=1 and k=0 and i="''a''"], of "()"]
        validation_failure_retry_or_fatal[OF validate_bad_city[where n=1 and k=1 and i="''a''"], of "()"]
        validate_bad_city[where n=1 and k=0 and i="''a''"]
  by (simp add: get_weather_def weather_call_def)

text \<open>
  Claim C2, as stated, asks for \<open>current_retry < max_retries\<close> after the increment.
  With \<open>max_retries = 1\<close> and a counter of 0, a validation failure is answered by a
  \<open>ToolRetry\<close> although the incremented counter, 1, is not below \<open>max_retries\<close>.
\<close>

theorem retry_at_the_bound:
  "validate_args (get_weather 1) (weather_call (PyInt 123) ''a'') = Inl [city_error]
   \<and> snd (run (get_weather 1) () (weather_call (PyInt 123) ''a'')) =
        Inr (ToolRetry ''get_weather'' (ErrorList [city_error]) (Some ''a''))
   \<and> \<not> current_retry (fst (run (get_weather 1) () (weather_call (PyInt 123) ''a'')))
         < max_retries (fst (run (get_weather 1) () (weather_call (PyInt 123) ''a'')))"
  by (simp add: run_def run_begin_def on_error_def Let_def validate_args_def get_weather_def
      weather_call_def city_validator_def)

text \<open>
  Claim C9.  When the arguments validate and the function returns, \<open>run\<close> sets the
  tool's counter to 0, whatever it was, and returns a \<open>ToolReturn\<close> with the
  function's output and the \<open>tool_name\<close> and \<open>tool_id\<close> of the call.
\<close>

theorem success_resets_counter:
  assumes "validate_args r c = Inr d" and "call_args r deps d = Inr (as, kwargs)"
    and "func r as kwargs = Returns s"
  shows "run r deps c = (r\<lparr>current_retry := 0\<rparr>, Inr (ToolReturn (tool_name c) s (tool_id c)))"
  using assms by (simp add: run_def run_begin_def run_end_def)

lemma validate_paris:
  "validate_args (get_weather n\<lparr>current_retry := k\<rparr>) (weather_call (PyStr ''Paris'') i)
     = Inr [(''city'', PyStr ''Paris'')]"
  by (simp add: validate_args_def get_weather_def weather_call_def city_validator_def)

lemma call_args_paris:
  "call_args (get_weather n\<lparr>current_retry := k\<rparr>) () [(''city'', PyStr ''Paris'')]
     = Inr ([Positional (PyStr ''Paris'')], [])"
  by (simp add: call_args_def get_weather_def truthy_def pop_def)

lemma func_paris:
  "func (get_weather n\<lparr>current_retry := k\<rparr>) [Positional (PyStr ''Paris'')] [] = Returns ''sunny in Paris''"
  by (simp add: get_weather_def weather_report_def)

theorem success_resets_counter_witness:
  "validate_args (get_weather 1\<lparr>current_retry := 1\<rparr>) (weather_call (PyStr ''Paris'') ''b'')
     = Inr [(''city'', PyStr ''Paris'')]
   \<and> call_args (get_weather 1\<lparr>current_retry := 1\<rparr>) () [(''city'', PyStr ''Paris'')]
     = Inr ([Positional (PyStr ''Paris'')], [])
   \<and> func (get_weather 1\<lparr>current_retry := 1\<rparr>) [Positional (PyStr ''Paris'')] [] = Returns ''sunny in Paris''
   \<and> run (get_weather 1\<lparr>current_retry := 1\<rparr>) () (weather_call (PyStr ''Paris'') ''b'')
     = (get_weather 1\<lparr>current_retry := 0\<rparr>,
        Inr (ToolReturn ''get_weather'' ''sunny in Paris'' (Some ''b'')))"
  using success_resets_counter[OF validate_paris[where n=1 and k=1 and i="''b''"] call_args_paris[where n=1 and k=1] func_paris[where n=1 and k=1]]
        validate_paris[where n=1 and k=1 and i="''b''"] call_args_paris[where n=1 and k=1] func_paris[where n=1 and k=1]
  by (simp add: get_weather_def weather_call_def)

section \<open>Properties of the agent\<close>

subsection \<open>One turn\<close>

lemma handle_text:
  "handle_model_response a ms (LLMResponse text) deps evs =
     (if allow_text_result a
      then (a, ms @ [LLM (LLMResponse text)], Inr (Some (PyStr text)))
      else (a, ms @ [LLM (LLMResponse text), PlainResponseForbidden], Inr None))"
  by (simp add: handle_model_response_def)

lemma handle_result_call:
  assumes "result_call a calls = Some (t, call)"
  shows "handle_model_response a ms (LLMToolCalls calls) deps evs =
     (case validate_result_call a t deps call of
        Inr result \<Rightarrow> (a, ms @ [LLM (LLMToolCalls calls)], Inr (Some result))
      | Inl tool_retry \<Rightarrow>
          if current_result_retry a + 1 > max_result_retries a
          then (a\<lparr>current_result_retry := current_result_retry a + 1\<rparr>,
                ms @ [LLM (LLMToolCalls calls)],
                Inl (ExceededMaximumRetries (max_result_retries a)))
          else (a\<lparr>current_result_retry := current_result_retry a + 1\<rparr>,
                ms @ [LLM (LLMToolCalls calls), tool_retry], Inr None))"
  using assms
  by (simp add: handle_model_response_def incr_result_retry_def Let_def split: sum.splits)

lemma handle_dispatch:
  assumes "result_call a calls = None"
  shows "handle_model_response a ms (LLMToolCalls calls) deps evs =
     (case unknown_call (retrievers a) calls of
        Some e \<Rightarrow> (a, ms @ [LLM (LLMToolCalls calls)], Inl e)
      | None \<Rightarrow>
          (case gather (retrievers a) deps calls evs of
             (rs', Inl e) \<Rightarrow> (a\<lparr>retrievers := rs'\<rparr>, ms @ [LLM (LLMToolCalls calls)], Inl e)
           | (rs', Inr rms) \<Rightarrow>
               (a\<lparr>retrievers := rs'\<rparr>, ms @ [LLM (LLMToolCalls calls)] @ rms, Inr None)))"
  using assms by (simp add: handle_model_response_def Let_def split: option.splits prod.splits sum.splits)

lemma handle_result_fields:
  "handle_model_response a ms llm deps evs = (a', ms', out) \<Longrightarrow>
   result_tool a' = result_tool a \<and> allow_text_result a' = allow_text_result a
   \<and> max_result_retries a' = max_result_retries a
   \<and> result_validators a' = result_validators a
   \<and> current_result_retry a' =
       current_result_retry a + (if result_validation_fails a llm deps then 1 else 0)"
  by (cases llm)
     (auto simp: handle_model_response_def result_validation_fails_def incr_result_retry_def
        Let_def split: option.splits sum.splits prod.splits if_splits)

lemma reachable_text_policy: "reachable a \<Longrightarrow> allow_text_result a = plain_text_accepted a"
proof (induction rule: reachable.induct)
  case (init m t sp d n rr)
  then show ?case by (simp add: Agent_init_def plain_text_accepted_def)
next
  case (register a r n a')
  then show ?case
    by (auto simp: register_retriever_def plain_text_accepted_def Let_def split: if_splits)
next
  case (validator a f)
  then show ?case by (simp add: result_validator_def plain_text_accepted_def)
next
  case (reset a)
  then show ?case by (simp add: reset_retrievers_def plain_text_accepted_def)
next
  case (turn a ms llm deps evs a' ms' out)
  from handle_result_fields[OF turn.hyps(2)] turn.IH show ?case
    by (simp add: plain_text_accepted_def)
qed

lemma run_loop_continue:
  "handle_model_response a ms (request ms) deps (sched ms) = (a', ms', Inr None) \<Longrightarrow>
   run_loop request sched a deps ms = run_loop request sched a' deps ms'"
  by (subst run_loop.simps) simp

lemma run_loop_result:
  "handle_model_response a ms (request ms) deps (sched ms) = (a', ms', Inr (Some v)) \<Longrightarrow>
   run_loop request sched a deps ms = Some (a', Inr (RunResult v ms' 0))"
  by (subst run_loop.simps) simp

lemma run_loop_error:
  "handle_model_response a ms (request ms) deps (sched ms) = (a', ms', Inl e) \<Longrightarrow>
   run_loop request sched a deps ms = Some (a', Inl e)"
  by (subst run_loop.simps) simp

lemma run_loop_result_retry_mono:
  assumes "run_loop request sched a deps ms = Some y"
  shows "current_result_retry a \<le> current_result_retry (fst y)
   \<and> max_result_retries (fst y) = max_result_retries a"
  using assms
proof (induction request sched a deps ms y rule: run_loop.raw_induct[rotated, consumes 1])
  case (1 loop request sched a deps ms y)
  obtain b ms1 out where h: "handle_model_response a ms (request ms) deps (sched ms) = (b, ms1, out)"
    by (cases "handle_model_response a ms (request ms) deps (sched ms)") auto
  from handle_result_fields[OF h]
  have b: "current_result_retry a \<le> current_result_retry b" "max_result_retries b = max_result_retries a"
    by auto
  show ?case
  proof (cases out)
    case (Inl e)
    with 1 h b show ?thesis by auto
  next
    case (Inr v)
    show ?thesis
    proof (cases v)
      case None
      with Inr 1 h have "loop request sched b deps ms1 = Some y" by simp
      from "1.IH"[OF this] b show ?thesis by simp
    next
      case (Some w)
      with Inr 1 h b show ?thesis by auto
    qed
  qed
qed

subsection \<open>The coroutines of a turn\<close>

lemma on_error_answers: "on_error r exc content c = (r', Inr m) \<Longrightarrow> answers c m"
  by (auto simp: on_error_def answers_def Let_def split: if_splits)

lemma run_begin_answers: "run_begin r deps c = (r', Finished (Inr m)) \<Longrightarrow> answers c m"
  by (auto simp: run_begin_def split: sum.splits prod.splits dest: on_error_answers)

lemma run_end_answers: "run_end r c outcome = (r', Inr m) \<Longrightarrow> answers c m"
  by (auto simp: run_end_def answers_def split: fn_outcome.splits dest: on_error_answers)

lemma run_answers: "run r deps c = (r', Inr m) \<Longrightarrow> answers c m"
  by (auto simp: run_def split: prod.splits progress.splits
      dest: run_begin_answers run_end_answers)

lemma step_task_ok:
  "step_task rs deps c t = (rs', Inr t') \<Longrightarrow> task_ok c t \<Longrightarrow> task_ok c t'"
  by (auto simp: step_task_def task_ok_def Let_def
      split: task.splits prod.splits progress.splits sum.splits
      dest: run_begin_answers run_end_answers)

lemma finish_task_answers:
  "finish_task rs deps c t = (rs', Inr m) \<Longrightarrow> task_ok c t \<Longrightarrow> answers c m"
  by (auto simp: finish_task_def task_ok_def Let_def
      split: task.splits prod.splits dest: run_answers run_end_answers)

lemma run_events_ok:
  "run_events rs deps calls ts evs = (rs', Inr ts') \<Longrightarrow>
   length ts = length calls \<Longrightarrow> \<forall>i<length calls. task_ok (calls ! i) (ts ! i) \<Longrightarrow>
   length ts' = length calls \<and> (\<forall>i<length calls. task_ok (calls ! i) (ts' ! i))"
proof (induction evs arbitrary: rs rs' ts ts')
  case Nil
  then show ?case by simp
next
  case (Cons i evs)
  show ?case
  proof (cases "i < length ts")
    case False
    with Cons.prems have "run_events rs deps calls ts evs = (rs', Inr ts')" by simp
    from Cons.IH[OF this Cons.prems(2,3)] show ?thesis .
  next
    case True
    obtain rs1 res where st: "step_task rs deps (calls ! i) (ts ! i) = (rs1, res)"
      by (cases "step_task rs deps (calls ! i) (ts ! i)") auto
    with True Cons.prems(1) obtain t where res: "res = Inr t"
      by (cases res) auto
    with st True Cons.prems(1) have re: "run_events rs1 deps calls (ts[i := t]) evs = (rs', Inr ts')"
      by simp
    have "task_ok (calls ! i) t"
      using step_task_ok[OF st[unfolded res]] Cons.prems(2,3) True by simp
    then have ok: "\<forall>j<length calls. task_ok (calls ! j) (ts[i := t] ! j)"
      using Cons.prems(2,3) True by (auto simp: nth_list_update)
    from Cons.IH[OF re _ ok] Cons.prems(2) show ?thesis by simp
  qed
qed

lemma collect_answers:
  "collect rs deps cts = (rs', Inr ms) \<Longrightarrow> \<forall>i<length cts. task_ok (fst (cts ! i)) (snd (cts ! i)) \<Longrightarrow>
   length ms = length cts \<and> (\<forall>i<length cts. answers (fst (cts ! i)) (ms ! i))"
proof (induction cts arbitrary: rs rs' ms)
  case Nil
  then show ?case by simp
next
  case (Cons ct cts)
  obtain c t where ct: "ct = (c, t)" by (cases ct)
  obtain rs1 res where ft: "finish_task rs deps c t = (rs1, res)"
    by (cases "finish_task rs deps c t") auto
  with Cons.prems(1) ct obtain m where res: "res = Inr m" by (cases res) auto
  obtain rs2 res2 where co: "collect rs1 deps cts = (rs2, res2)"
    by (cases "collect rs1 deps cts") auto
  with Cons.prems(1) ct ft res obtain ms2 where res2: "res2 = Inr ms2" and ms: "ms = m # ms2"
    by (cases res2) auto
  have ok0: "task_ok c t" using Cons.prems(2) ct by fastforce
  have m_ok: "answers c m" using finish_task_answers[OF ft[unfolded res] ok0] .
  have ok': "\<forall>i<length cts. task_ok (fst (cts ! i)) (snd (cts ! i))"
    using Cons.prems(2) by fastforce
  from Cons.IH[OF co[unfolded res2] ok']
  have ih: "length ms2 = length cts" "\<forall>i<length cts. answers (fst (cts ! i)) (ms2 ! i)" by auto
  show ?case
  proof (intro conjI allI impI)
    show "length ms = length (ct # cts)" using ih ms by simp
  next
    fix i assume "i < length (ct # cts)"
    then show "answers (fst ((ct # cts) ! i)) (ms ! i)"
      using ih m_ok ms ct by (cases i) auto
  qed
qed

lemma gather_answers:
  assumes "gather rs deps calls evs = (rs', Inr ms)"
  shows "length ms = length calls \<and> (\<forall>i<length calls. answers (calls ! i) (ms ! i))"
proof -
  obtain rs1 res where re: "run_events rs deps calls (replicate (length calls) NotStarted) evs = (rs1, res)"
    by (cases "run_events rs deps calls (replicate (length calls) NotStarted) evs") auto
  with assms obtain ts where res: "res = Inr ts" by (cases res) (auto simp: gather_def)
  have co: "collect rs1 deps (zip calls ts) = (rs', Inr ms)"
    using assms re res by (simp add: gather_def)
  have "length ts = length calls \<and> (\<forall>i<length calls. task_ok (calls ! i) (ts ! i))"
    by (rule run_events_ok[OF re[unfolded res]]) (simp_all add: task_ok_def)
  then have len: "length ts = length calls" and ok: "\<forall>i<length calls. task_ok (calls ! i) (ts ! i)"
    by auto
  have "\<forall>i<length (zip calls ts). task_ok (fst (zip calls ts ! i)) (snd (zip calls ts ! i))"
    using len ok by simp
  from collect_answers[OF co this] len show ?thesis by simp
qed

lemma step_task_other:
  "step_task rs deps c t = (rs', res) \<Longrightarrow> n \<noteq> tool_name c \<Longrightarrow> map_of rs' n = map_of rs n"
  by (auto simp: step_task_def Let_def update_conv'
      split: task.splits prod.splits progress.splits sum.splits)

lemma finish_task_other:
  "finish_task rs deps c t = (rs', res) \<Longrightarrow> n \<noteq> tool_name c \<Longrightarrow> map_of rs' n = map_of rs n"
  by (auto simp: finish_task_def Let_def update_conv' split: task.splits prod.splits)

lemma run_events_other:
  "run_events rs deps calls ts evs = (rs', res) \<Longrightarrow> length ts = length calls \<Longrightarrow>
   n \<notin> tool_name ` set calls \<Longrightarrow> map_of rs' n = map_of rs n"
proof (induction evs arbitrary: rs ts)
  case Nil
  then show ?case by simp
next
  case (Cons i evs)
  show ?case
  proof (cases "i < length ts")
    case False
    with Cons show ?thesis by simp
  next
    case True
    obtain rs1 r1 where st: "step_task rs deps (calls ! i) (ts ! i) = (rs1, r1)"
      by (cases "step_task rs deps (calls ! i) (ts ! i)") auto
    have "calls ! i \<in> set calls" using True Cons.prems(2) by simp
    then have ne: "n \<noteq> tool_name (calls ! i)" using Cons.prems(3) by blast
    have eq1: "map_of rs1 n = map_of rs n" by (rule step_task_other[OF st ne])
    show ?thesis
    proof (cases r1)
      case (Inl e)
      with st True Cons.prems(1) eq1 show ?thesis by simp
    next
      case (Inr t)
      with st True Cons.prems(1) have "run_events rs1 deps calls (ts[i := t]) evs = (rs', res)" by simp
      from Cons.IH[OF this _ Cons.prems(3)] Cons.prems(2) eq1 show ?thesis by simp
    qed
  qed
qed

lemma collect_other:
  "collect rs deps cts = (rs', res) \<Longrightarrow> n \<notin> tool_name ` fst ` set cts \<Longrightarrow>
   map_of rs' n = map_of rs n"
proof (induction cts arbitrary: rs rs' res)
  case Nil
  then show ?case by simp
next
  case (Cons ct cts)
  obtain c t where ct: "ct = (c, t)" by (cases ct)
  obtain rs1 r1 where ft: "finish_task rs deps c t = (rs1, r1)"
    by (cases "finish_task rs deps c t") auto
  have ne: "n \<noteq> tool_name c" using Cons.prems(2) ct by auto
  have eq1: "map_of rs1 n = map_of rs n" by (rule finish_task_other[OF ft ne])
  show ?case
  proof (cases r1)
    case (Inl e)
    with ft ct Cons.prems(1) eq1 show ?thesis by simp
  next
    case (Inr m)
    obtain rs2 r2 where co: "collect rs1 deps cts = (rs2, r2)"
      by (cases "collect rs1 deps cts") auto
    have "n \<notin> tool_name ` fst ` set cts" using Cons.prems(2) by auto
    from Cons.IH[OF co this] have "map_of rs2 n = map_of rs1 n" .
    moreover have "rs' = rs2" using Cons.prems(1) ct ft Inr co by (cases r2) auto
    ultimately show ?thesis using eq1 by simp
  qed
qed

lemma gather_other:
  assumes "gather rs deps calls evs = (rs', res)" and "n \<notin> tool_name ` set calls"
  shows "map_of rs' n = map_of rs n"
proof -
  obtain rs1 r1 where re: "run_events rs deps calls (replicate (length calls) NotStarted) evs = (rs1, r1)"
    by (cases "run_events rs deps calls (replicate (length calls) NotStarted) evs") auto
  have eq1: "map_of rs1 n = map_of rs n"
    by (rule run_events_other[OF re _ assms(2)]) simp
  show ?thesis
  proof (cases r1)
    case (Inl e)
    with re assms(1) eq1 show ?thesis by (simp add: gather_def)
  next
    case (Inr ts)
    with re assms(1) have co: "collect rs1 deps (zip calls ts) = (rs', res)"
      by (simp add: gather_def)
    have "n \<notin> tool_name ` fst ` set (zip calls ts)"
      using assms(2) by (auto dest: set_zip_leftD)
    from collect_other[OF co this] eq1 show ?thesis by simp
  qed
qed

lemma handle_other_tools:
  assumes "handle_model_response a ms llm deps evs = (a', ms', out)" and "\<not> called n llm"
  shows "map_of (retrievers a') n = map_of (retrievers a) n"
proof (cases llm)
  case (LLMResponse content)
  with assms(1) show ?thesis by (auto simp: handle_text split: if_splits)
next
  case (LLMToolCalls calls)
  show ?thesis
  proof (cases "result_call a calls")
    case (Some tc)
    obtain t c where "tc = (t, c)" by (cases tc)
    with Some assms(1) LLMToolCalls show ?thesis
      by (auto simp: handle_result_call split: sum.splits if_splits)
  next
    case None
    show ?thesis
    proof (cases "unknown_call (retrievers a) calls")
      case (Some e)
      with None assms(1) LLMToolCalls show ?thesis by (simp add: handle_dispatch)
    next
      case N: None
      obtain rs' r where g: "gather (retrievers a) deps calls evs = (rs', r)"
        by (cases "gather (retrievers a) deps calls evs") auto
      have "n \<notin> tool_name ` set calls" using assms(2) LLMToolCalls by (simp add: called_def)
      from gather_other[OF g this] have "map_of rs' n = map_of (retrievers a) n" .
      moreover have "retrievers a' = rs'"
        using None N g assms(1) LLMToolCalls by (cases r) (auto simp: handle_dispatch)
      ultimately show ?thesis by simp
    qed
  qed
qed

lemma unknown_call_Some:
  "(\<exists>c\<in>set calls. map_of rs (tool_name c) = None) \<Longrightarrow>
   \<exists>c\<in>set calls. map_of rs (tool_name c) = None
      \<and> unknown_call rs calls = Some (UnknownFunctionName (tool_name c))"
  by (induction calls) (auto split: option.splits)

lemma unknown_call_None:
  "unknown_call rs calls = None \<longleftrightarrow> (\<forall>c\<in>set calls. map_of rs (tool_name c) \<noteq> None)"
  by (induction calls) (auto split: option.splits)

text \<open>A turn with a single call whose arguments do not validate.\<close>

lemma run_events_completed:
  "run_events rs deps [c] [Completed m] evs = (rs, Inr [Completed m])"
  by (induction evs) (auto simp: step_task_def Let_def)

lemma gather_single_invalid:
  assumes "map_of rs (tool_name c) = Some r" and "validate_args r c = Inl errs"
  shows "gather rs deps [c] evs =
           (AList.update (tool_name c) (r\<lparr>current_retry := current_retry r + 1\<rparr>) rs,
            if current_retry r + 1 \<le> max_retries r
            then Inr [ToolRetry (tool_name c) (ErrorList errs) (tool_id c)]
            else Inl (ValidationError errs))"
proof -
  let ?r' = "r\<lparr>current_retry := current_retry r + 1\<rparr>"
  let ?rs' = "AList.update (tool_name c) ?r' rs"
  let ?m = "ToolRetry (tool_name c) (ErrorList errs) (tool_id c)"
  have rb: "run_begin r deps c =
      (?r', Finished (if current_retry r + 1 \<le> max_retries r then Inr ?m else Inl (ValidationError errs)))"
    using assms(2) by (simp add: run_begin_def on_error_def Let_def)
  have rn: "run r deps c =
      (?r', if current_retry r + 1 \<le> max_retries r then Inr ?m else Inl (ValidationError errs))"
    using rb by (simp add: run_def)
  have st: "step_task rs deps c NotStarted =
      (?rs', if current_retry r + 1 \<le> max_retries r then Inr (Completed ?m) else Inl (ValidationError errs))"
    using rb assms(1) by (simp add: step_task_def Let_def)
  have ev: "run_events rs deps [c] [NotStarted] evs = (rs, Inr [NotStarted])
          \<or> run_events rs deps [c] [NotStarted] evs =
              (?rs', if current_retry r + 1 \<le> max_retries r then Inr [Completed ?m]
                     else Inl (ValidationError errs))"
  proof (induction evs)
    case Nil
    then show ?case by simp
  next
    case (Cons i evs)
    show ?case
    proof (cases "i = 0")
      case True
      then show ?thesis using st by (simp add: run_events_completed)
    next
      case False
      then show ?thesis using Cons by simp
    qed
  qed
  have fin: "finish_task rs deps c NotStarted =
      (?rs', if current_retry r + 1 \<le> max_retries r then Inr ?m else Inl (ValidationError errs))"
    using rn assms(1) by (simp add: finish_task_def Let_def)
  from ev show ?thesis
  proof
    assume "run_events rs deps [c] [NotStarted] evs = (rs, Inr [NotStarted])"
    then show ?thesis using fin by (simp add: gather_def)
  next
    assume "run_events rs deps [c] [NotStarted] evs =
              (?rs', if current_retry r + 1 \<le> max_retries r then Inr [Completed ?m]
                     else Inl (ValidationError errs))"
    then show ?thesis by (simp add: gather_def finish_task_def Let_def)
  qed
qed

lemma reset_retrievers_zero:
  "map_of (retrievers (reset_retrievers a)) n = Some r \<Longrightarrow> current_retry r = 0"
  by (auto simp: reset_retrievers_def reset_def dest!: map_of_SomeD)

lemma map_of_reset_retrievers:
  "map_of (retrievers (reset_retrievers a)) n = map_option reset (map_of (retrievers a) n)"
  unfolding reset_retrievers_def by (induction "retrievers a" arbitrary: a) (auto simp: map_of_map)

subsection \<open>Evaluating the examples\<close>

lemmas agent_simps = tools_agent_def result_agent_def text_agent_def Agent_init_def
  final_result_def missing_answer_def answer_call_def city_call_def tool_def get_weather_def

lemmas run_simps = step_task_def finish_task_def run_begin_def run_end_def run_def on_error_def
  validate_args_def call_args_def truthy_def pop_def city_validator_def weather_report_def

lemma agent_run_unfold:
  "select_model a model_arg = Some m \<Longrightarrow>
   agent_run a sched p h model_arg deps_arg =
     run_loop (make_agent_model a m) sched (reset_retrievers a) (select_deps a deps_arg)
       (start_messages a h (select_deps a deps_arg) p)"
  by (simp add: agent_run_def Let_def)

lemma reset_retrievers_fields [simp]:
  "current_result_retry (reset_retrievers a) = current_result_retry a"
  "max_result_retries (reset_retrievers a) = max_result_retries a"
  "result_tool (reset_retrievers a) = result_tool a"
  "result_validators (reset_retrievers a) = result_validators a"
  by (simp_all add: reset_retrievers_def)

lemma handle_result_failure:
  assumes "result_validation_fails a llm deps"
  shows "\<exists>ms' out. handle_model_response a ms llm deps evs =
            (a\<lparr>current_result_retry := current_result_retry a + 1\<rparr>, ms', out)
          \<and> out = (if max_result_retries a < current_result_retry a + 1
                    then Inl (ExceededMaximumRetries (max_result_retries a)) else Inr None)"
proof (cases llm)
  case (LLMResponse content)
  with assms show ?thesis by (simp add: result_validation_fails_def)
next
  case (LLMToolCalls calls)
  with assms obtain t call where rc: "result_call a calls = Some (t, call)"
    and f: "isl (validate_result_call a t deps call)"
    by (auto simp: result_validation_fails_def split: option.splits)
  from f obtain tr where "validate_result_call a t deps call = Inl tr"
    by (cases "validate_result_call a t deps call") auto
  with rc LLMToolCalls show ?thesis by (simp add: handle_result_call)
qed

lemma bad_turn_fails:
  "current_result_retry a = k \<Longrightarrow> result_tool a = Some final_result \<Longrightarrow> result_validators a = [] \<Longrightarrow>
   result_validation_fails a bad_turn ()"
  by (simp add: result_validation_fails_def bad_turn_def result_call_def final_result_def
      answer_call_def validate_result_call_def)

lemma handle_bad_turn:
  "handle_model_response result_agent [] bad_turn () [] =
     (result_agent\<lparr>current_result_retry := 1\<rparr>,
      [LLM bad_turn, missing_answer (answer_call [] ''R1'')], Inr None)"
  by (simp add: handle_model_response_def bad_turn_def result_call_def result_agent_def
      Agent_init_def final_result_def answer_call_def validate_result_call_def
      incr_result_retry_def Let_def)

lemma handle_three_calls:
  "handle_model_response tools_agent [] (LLMToolCalls three_calls) () [0, 1, 2, 1, 2, 0] =
     (tools_agent\<lparr>retrievers :=
        [(''weather'', tool ''weather'' 1), (''tides'', (tool ''tides'' 1)\<lparr>current_retry := 1\<rparr>),
         (''winds'', tool ''winds'' 1)]\<rparr>,
      [LLM (LLMToolCalls three_calls),
       ToolReturn ''weather'' ''sunny in Paris'' (Some ''A''),
       ToolRetry ''tides'' (ErrorList [city_error]) (Some ''B''),
       ToolReturn ''winds'' ''sunny in Rome'' (Some ''C'')], Inr None)"
  by (simp add: handle_model_response_def result_call_def three_calls_def gather_def
      agent_simps run_simps Let_def)

lemma scripted_nth:
  "length (filter is_llm ms) = k \<Longrightarrow> k < length script \<Longrightarrow>
   scripted script allow fs rn ms = script ! k"
  by (simp add: scripted_def)

section \<open>Properties of \<open>_handle_model_response\<close> and \<open>run\<close>\<close>

text \<open>
  Claim C3.  A result schema is configured and a turn of tool calls holds a call that
  names it; \<open>call\<close> is the first such call.  Then the turn is decided by that call
  alone: its validated result ends the run, or its retry message is the only message
  appended after the model's, or the exhausted result budget is raised.  No retriever
  is run (the store of retrievers is as before) and nothing is appended for the other
  calls, in whatever order the event loop would have stepped them.
\<close>

theorem result_call_is_authoritative:
  assumes "result_tool a = Some t" and "find (\<lambda>c. tool_name c = schema_name t) calls = Some call"
  shows "handle_model_response a ms (LLMToolCalls calls) deps evs =
           (case validate_result_call a t deps call of
              Inr result \<Rightarrow> (a, ms @ [LLM (LLMToolCalls calls)], Inr (Some result))
            | Inl tool_retry \<Rightarrow>
                if max_result_retries a < current_result_retry a + 1
                then (a\<lparr>current_result_retry := current_result_retry a + 1\<rparr>,
                      ms @ [LLM (LLMToolCalls calls)],
                      Inl (ExceededMaximumRetries (max_result_retries a)))
                else (a\<lparr>current_result_retry := current_result_retry a + 1\<rparr>,
                      ms @ [LLM (LLMToolCalls calls), tool_retry], Inr None))
       \<and> retrievers (fst (handle_model_response a ms (LLMToolCalls calls) deps evs)) = retrievers a"
proof -
  have rc: "result_call a calls = Some (t, call)" using assms by (simp add: result_call_def)
  show ?thesis unfolding handle_result_call[OF rc] by (simp split: sum.splits)
qed

theorem result_call_is_authoritative_witness:
  "result_tool tools_agent = Some final_result
   \<and> find (\<lambda>c. tool_name c = schema_name final_result) mixed_calls = Some (answer_call [] ''R'')
   \<and> handle_model_response tools_agent [] (LLMToolCalls mixed_calls) () [0, 1, 2] =
       (tools_agent\<lparr>current_result_retry := 1\<rparr>,
        [LLM (LLMToolCalls mixed_calls), missing_answer (answer_call [] ''R'')], Inr None)
   \<and> retrievers (fst (handle_model_response tools_agent [] (LLMToolCalls mixed_calls) () [0, 1, 2]))
       = retrievers tools_agent"
proof -
  have h1: "result_tool tools_agent = Some final_result"
    by (simp add: tools_agent_def result_agent_def Agent_init_def)
  have h2: "find (\<lambda>c. tool_name c = schema_name final_result) mixed_calls = Some (answer_call [] ''R'')"
    by (simp add: mixed_calls_def final_result_def city_call_def answer_call_def)
  have v: "validate_result_call tools_agent final_result () (answer_call [] ''R'')
             = Inl (missing_answer (answer_call [] ''R''))"
    by (simp add: validate_result_call_def final_result_def answer_call_def)
  have c: "current_result_retry tools_agent = 0" "max_result_retries tools_agent = 1"
    by (simp_all add: tools_agent_def result_agent_def Agent_init_def)
  from result_call_is_authoritative[OF h1 h2, of "[]" "()" "[0, 1, 2]"] h1 h2 v c
  show ?thesis by simp
qed

text \<open>
  Claim C4.  When the tool calls of a turn are dispatched and none raises, the messages
  appended after the model's are one per call, and the \<open>i\<close>-th answers the \<open>i\<close>-th
  call, for every order \<open>evs\<close> in which the event loop steps the coroutines.  The
  next request is made with the conversation that holds all of them.
\<close>

theorem results_in_call_order:
  assumes "result_call a calls = None"
    and "handle_model_response a ms (LLMToolCalls calls) deps evs = (a', ms', Inr None)"
  shows "(\<exists>rms. ms' = ms @ [LLM (LLMToolCalls calls)] @ rms \<and> length rms = length calls
             \<and> (\<forall>i<length calls. answers (calls ! i) (rms ! i)))
       \<and> (\<forall>request sched. request ms = LLMToolCalls calls \<and> sched ms = evs \<longrightarrow>
             run_loop request sched a deps ms = run_loop request sched a' deps ms')"
proof -
  from assms have uk: "unknown_call (retrievers a) calls = None"
    by (auto simp: handle_dispatch split: option.splits)
  obtain rs' r where g: "gather (retrievers a) deps calls evs = (rs', r)"
    by (cases "gather (retrievers a) deps calls evs") auto
  with assms uk obtain rms where r: "r = Inr rms" and ms': "ms' = ms @ [LLM (LLMToolCalls calls)] @ rms"
    by (cases r) (auto simp: handle_dispatch)
  from gather_answers[OF g[unfolded r]]
  have "length rms = length calls \<and> (\<forall>i<length calls. answers (calls ! i) (rms ! i))" .
  with ms' have first: "\<exists>rms. ms' = ms @ [LLM (LLMToolCalls calls)] @ rms \<and> length rms = length calls
             \<and> (\<forall>i<length calls. answers (calls ! i) (rms ! i))" by blast
  have "run_loop request sched a deps ms = run_loop request sched a' deps ms'"
    if "request ms = LLMToolCalls calls \<and> sched ms = evs" for request sched
    using assms(2) that by (simp add: run_loop_continue)
  with first show ?thesis by blast
qed

theorem results_in_call_order_witness:
  "result_call tools_agent three_calls = None
   \<and> handle_model_response tools_agent [] (LLMToolCalls three_calls) () [0, 1, 2, 1, 2, 0] =
     (tools_agent\<lparr>retrievers :=
        [(''weather'', tool ''weather'' 1), (''tides'', (tool ''tides'' 1)\<lparr>current_retry := 1\<rparr>),
         (''winds'', tool ''winds'' 1)]\<rparr>,
      [LLM (LLMToolCalls three_calls),
       ToolReturn ''weather'' ''sunny in Paris'' (Some ''A''),
       ToolRetry ''tides'' (ErrorList [city_error]) (Some ''B''),
       ToolReturn ''winds'' ''sunny in Rome'' (Some ''C'')], Inr None)
   \<and> (\<exists>rms. [LLM (LLMToolCalls three_calls),
              ToolReturn ''weather'' ''sunny in Paris'' (Some ''A''),
              ToolRetry ''tides'' (ErrorList [city_error]) (Some ''B''),
              ToolReturn ''winds'' ''sunny in Rome'' (Some ''C'')]
             = [] @ [LLM (LLMToolCalls three_calls)] @ rms
           \<and> length rms = length three_calls
           \<and> (\<forall>i<length three_calls. answers (three_calls ! i) (rms ! i)))"
proof -
  have h1: "result_call tools_agent three_calls = None"
    by (simp add: result_call_def three_calls_def agent_simps)
  from results_in_call_order[OF h1 handle_three_calls] h1 handle_three_calls
  show ?thesis by blast
qed

text \<open>
  Claim C5.  For an agent built by the constructor, a free-text response ends the run
  with that text exactly when plain text is accepted (no result schema, or a schema
  that allows text).  Otherwise \<open>PlainResponseForbidden\<close> is appended after the
  response and the loop goes on with the next request.
\<close>

theorem free_text_terminal_iff_accepted:
  assumes "reachable a"
  shows "(plain_text_accepted a \<longrightarrow>
            handle_model_response a ms (LLMResponse content) deps evs =
              (a, ms @ [LLM (LLMResponse content)], Inr (Some (PyStr content)))
            \<and> (request ms = LLMResponse content \<longrightarrow>
                 run_loop request sched a deps ms =
                   Some (a, Inr (RunResult (PyStr content) (ms @ [LLM (LLMResponse content)]) 0))))
       \<and> (\<not> plain_text_accepted a \<longrightarrow>
            handle_model_response a ms (LLMResponse content) deps evs =
              (a, ms @ [LLM (LLMResponse content), PlainResponseForbidden], Inr None)
            \<and> (request ms = LLMResponse content \<longrightarrow>
                 run_loop request sched a deps ms =
                   run_loop request sched a deps
                     (ms @ [LLM (LLMResponse content), PlainResponseForbidden])))"
proof -
  have pol: "allow_text_result a = plain_text_accepted a"
    by (rule reachable_text_policy[OF assms])
  show ?thesis
  proof (cases "plain_text_accepted a")
    case True
    then have h: "\<And>evs. handle_model_response a ms (LLMResponse content) deps evs =
              (a, ms @ [LLM (LLMResponse content)], Inr (Some (PyStr content)))"
      using pol by (simp add: handle_text)
    have "request ms = LLMResponse content \<Longrightarrow>
                 run_loop request sched a deps ms =
                   Some (a, Inr (RunResult (PyStr content) (ms @ [LLM (LLMResponse content)]) 0))"
      using h[of "sched ms"] by (simp add: run_loop_result)
    with True h show ?thesis by simp
  next
    case False
    then have h: "\<And>evs. handle_model_response a ms (LLMResponse content) deps evs =
              (a, ms @ [LLM (LLMResponse content), PlainResponseForbidden], Inr None)"
      using pol by (simp add: handle_text)
    have "request ms = LLMResponse content \<Longrightarrow>
                 run_loop request sched a deps ms =
                   run_loop request sched a deps
                     (ms @ [LLM (LLMResponse content), PlainResponseForbidden])"
      using h[of "sched ms"] by (simp add: run_loop_continue)
    with False h show ?thesis by simp
  qed
qed

theorem free_text_terminal_iff_accepted_witness:
  "reachable text_agent \<and> plain_text_accepted text_agent
   \<and> handle_model_response text_agent [] (LLMResponse ''hi'') () [] =
       (text_agent, [LLM (LLMResponse ''hi'')], Inr (Some (PyStr ''hi'')))
   \<and> run_loop (\<lambda>ms. LLMResponse ''hi'') (\<lambda>ms. []) text_agent () [] =
       Some (text_agent, Inr (RunResult (PyStr ''hi'') [LLM (LLMResponse ''hi'')] 0))
   \<and> reachable result_agent \<and> \<not> plain_text_accepted result_agent
   \<and> handle_model_response result_agent [] (LLMResponse ''hi'') () [] =
       (result_agent, [LLM (LLMResponse ''hi''), PlainResponseForbidden], Inr None)
   \<and> run_loop (\<lambda>ms. LLMResponse ''hi'') (\<lambda>ms. []) result_agent () [] =
       run_loop (\<lambda>ms. LLMResponse ''hi'') (\<lambda>ms. []) result_agent ()
         [LLM (LLMResponse ''hi''), PlainResponseForbidden]"
proof -
  have r1: "reachable text_agent" unfolding text_agent_def by (rule reachable.init)
  have r2: "reachable result_agent" unfolding result_agent_def by (rule reachable.init)
  have p1: "plain_text_accepted text_agent"
    by (simp add: plain_text_accepted_def text_agent_def Agent_init_def)
  have p2: "\<not> plain_text_accepted result_agent"
    by (simp add: plain_text_accepted_def result_agent_def Agent_init_def final_result_def)
  from free_text_terminal_iff_accepted[OF r1, of "[]" "''hi''" "()" "[]" "\<lambda>ms. LLMResponse ''hi''" "\<lambda>ms. []"]
       free_text_terminal_iff_accepted[OF r2, of "[]" "''hi''" "()" "[]" "\<lambda>ms. LLMResponse ''hi''" "\<lambda>ms. []"]
       r1 r2 p1 p2
  show ?thesis by simp
qed

text \<open>
  Claim C6.  A turn adds one to the result-retry counter when result validation fails
  in it (the schema or a result validator rejects the result call) and leaves the
  counter alone otherwise; \<open>max_result_retries\<close> never changes.  A failure that
  takes the counter above \<open>max_result_retries\<close> ends the run with the exception of
  \<open>_incr_result_retry\<close>.  Over the turns of a run the counter never decreases.
\<close>

theorem result_retry_counter:
  "(handle_model_response a ms llm deps evs = (a', ms', out) \<longrightarrow>
      current_result_retry a' =
        current_result_retry a + (if result_validation_fails a llm deps then 1 else 0)
      \<and> max_result_retries a' = max_result_retries a)
   \<and> (result_validation_fails a (request ms) deps
        \<and> max_result_retries a < current_result_retry a + 1 \<longrightarrow>
      run_loop request sched a deps ms =
        Some (a\<lparr>current_result_retry := current_result_retry a + 1\<rparr>,
              Inl (ExceededMaximumRetries (max_result_retries a))))
   \<and> (run_loop request sched a deps ms = Some (b, res) \<longrightarrow>
      current_result_retry a \<le> current_result_retry b
      \<and> max_result_retries b = max_result_retries a)"
proof (intro conjI impI)
  assume "handle_model_response a ms llm deps evs = (a', ms', out)"
  from handle_result_fields[OF this]
  show "current_result_retry a' =
        current_result_retry a + (if result_validation_fails a llm deps then 1 else 0)"
    and "max_result_retries a' = max_result_retries a" by simp_all
next
  assume h: "result_validation_fails a (request ms) deps
        \<and> max_result_retries a < current_result_retry a + 1"
  with handle_result_failure[of a "request ms" deps ms "sched ms"]
  obtain ms' where "handle_model_response a ms (request ms) deps (sched ms) =
      (a\<lparr>current_result_retry := current_result_retry a + 1\<rparr>, ms',
       Inl (ExceededMaximumRetries (max_result_retries a)))" by auto
  then show "run_loop request sched a deps ms =
        Some (a\<lparr>current_result_retry := current_result_retry a + 1\<rparr>,
              Inl (ExceededMaximumRetries (max_result_retries a)))"
    by (rule run_loop_error)
next
  assume r: "run_loop request sched a deps ms = Some (b, res)"
  from run_loop_result_retry_mono[OF r]
  show "current_result_retry a \<le> current_result_retry b"
    and "max_result_retries b = max_result_retries a" by simp_all
qed

theorem result_retry_counter_witness:
  "handle_model_response result_agent [] bad_turn () [] =
     (result_agent\<lparr>current_result_retry := 1\<rparr>,
      [LLM bad_turn, missing_answer (answer_call [] ''R1'')], Inr None)
   \<and> result_validation_fails result_agent bad_turn ()
   \<and> current_result_retry (result_agent\<lparr>current_result_retry := 1\<rparr>)
       = current_result_retry result_agent + 1
   \<and> result_validation_fails (result_agent\<lparr>current_result_retry := 1\<rparr>) bad_turn ()
   \<and> max_result_retries (result_agent\<lparr>current_result_retry := 1\<rparr>)
       < current_result_retry (result_agent\<lparr>current_result_retry := 1\<rparr>) + 1
   \<and> run_loop (\<lambda>ms. bad_turn) (\<lambda>ms. []) (result_agent\<lparr>current_result_retry := 1\<rparr>) ()
         [LLM bad_turn, missing_answer (answer_call [] ''R1'')] =
       Some (result_agent\<lparr>current_result_retry := 2\<rparr>, Inl (ExceededMaximumRetries 1))
   \<and> run_loop (\<lambda>ms. bad_turn) (\<lambda>ms. []) result_agent () [] =
       Some (result_agent\<lparr>current_result_retry := 2\<rparr>, Inl (ExceededMaximumRetries 1))
   \<and> current_result_retry result_agent
       \<le> current_result_retry (result_agent\<lparr>current_result_retry := 2\<rparr>)"
proof -
  let ?a1 = "result_agent\<lparr>current_result_retry := 1\<rparr>"
  let ?ms1 = "[LLM bad_turn, missing_answer (answer_call [] ''R1'')]"
  have f0: "result_validation_fails result_agent bad_turn ()"
    by (rule bad_turn_fails[of _ 0]) (simp_all add: result_agent_def Agent_init_def)
  have f1: "result_validation_fails ?a1 bad_turn ()"
    by (rule bad_turn_fails[of _ 1]) (simp_all add: result_agent_def Agent_init_def)
  have m1: "max_result_retries ?a1 < current_result_retry ?a1 + 1"
    by (simp add: result_agent_def Agent_init_def)
  have c1: "current_result_retry ?a1 = current_result_retry result_agent + 1"
    using result_retry_counter[where a = result_agent and ms = "[]" and llm = bad_turn
        and deps = "()" and evs = "[]" and a' = ?a1 and ms' = ?ms1 and out = "Inr None"]
      handle_bad_turn f0 by simp
  have l1: "run_loop (\<lambda>ms. bad_turn) (\<lambda>ms. []) ?a1 () ?ms1 =
       Some (result_agent\<lparr>current_result_retry := 2\<rparr>, Inl (ExceededMaximumRetries 1))"
    using result_retry_counter[where a = ?a1 and request = "\<lambda>ms. bad_turn" and ms = ?ms1
        and deps = "()" and sched = "\<lambda>ms. []"] f1 m1
    by (simp add: result_agent_def Agent_init_def)
  have l0: "run_loop (\<lambda>ms. bad_turn) (\<lambda>ms. []) result_agent () [] =
       Some (result_agent\<lparr>current_result_retry := 2\<rparr>, Inl (ExceededMaximumRetries 1))"
    using run_loop_continue[where request = "\<lambda>ms. bad_turn" and sched = "\<lambda>ms. []"
        and a = result_agent and ms = "[]" and deps = "()", OF handle_bad_turn] l1 by simp
  have mono: "current_result_retry result_agent
       \<le> current_result_retry (result_agent\<lparr>current_result_retry := 2\<rparr>)"
    using result_retry_counter[where a = result_agent and request = "\<lambda>ms. bad_turn" and ms = "[]"
        and deps = "()" and sched = "\<lambda>ms. []" and b = "result_agent\<lparr>current_result_retry := 2\<rparr>"
        and res = "Inl (ExceededMaximumRetries 1)"] l0 by blast
  from handle_bad_turn f0 c1 f1 m1 l1 l0 mono show ?thesis by blast
qed

text \<open>
  Claim C7.  \<open>run\<close> is the loop started on the agent with every retriever's counter
  set to 0, so the first request is made after the reset.  A turn leaves the retriever
  of a tool it does not call as it is.  A turn that is one call with invalid arguments
  leaves that tool's counter one above what the turn before left: the loop goes on
  with it when the budget allows, and the run ends with the \<open>ValidationError\<close>
  when the failures of the earlier turns have used the budget up.
\<close>

theorem tool_retries_reset_once_per_run:
  "(select_model a model_arg = Some m \<longrightarrow>
      agent_run a sched p h model_arg deps_arg =
        run_loop (make_agent_model a m) sched (reset_retrievers a) (select_deps a deps_arg)
          (start_messages a h (select_deps a deps_arg) p)
      \<and> (\<forall>n. map_of (retrievers (reset_retrievers a)) n =
               map_option (\<lambda>r. r\<lparr>current_retry := 0\<rparr>) (map_of (retrievers a) n)))
   \<and> (handle_model_response a ms llm deps evs = (a', ms', out) \<and> \<not> called n llm \<longrightarrow>
        map_of (retrievers a') n = map_of (retrievers a) n)
   \<and> (result_call a [c] = None \<and> map_of (retrievers a) (tool_name c) = Some r
        \<and> validate_args r c = Inl errs \<and> request ms = LLMToolCalls [c] \<longrightarrow>
        run_loop request sched a deps ms =
          (if current_retry r + 1 \<le> max_retries r
           then run_loop request sched
                  (a\<lparr>retrievers := AList.update (tool_name c)
                        (r\<lparr>current_retry := current_retry r + 1\<rparr>) (retrievers a)\<rparr>)
                  deps
                  (ms @ [LLM (LLMToolCalls [c]), ToolRetry (tool_name c) (ErrorList errs) (tool_id c)])
           else Some (a\<lparr>retrievers := AList.update (tool_name c)
                        (r\<lparr>current_retry := current_retry r + 1\<rparr>) (retrievers a)\<rparr>,
                      Inl (ValidationError errs))))"
proof (intro conjI impI allI)
  assume "select_model a model_arg = Some m"
  then show "agent_run a sched p h model_arg deps_arg =
        run_loop (make_agent_model a m) sched (reset_retrievers a) (select_deps a deps_arg)
          (start_messages a h (select_deps a deps_arg) p)"
    by (rule agent_run_unfold)
next
  fix n
  show "map_of (retrievers (reset_retrievers a)) n =
               map_option (\<lambda>r. r\<lparr>current_retry := 0\<rparr>) (map_of (retrievers a) n)"
    using map_of_reset_retrievers[of a n] by (simp add: reset_def[abs_def])
next
  assume "handle_model_response a ms llm deps evs = (a', ms', out) \<and> \<not> called n llm"
  then have h1: "handle_model_response a ms llm deps evs = (a', ms', out)"
    and h2: "\<not> called n llm" by simp_all
  show "map_of (retrievers a') n = map_of (retrievers a) n"
    by (rule handle_other_tools[OF h1 h2])
next
  assume h: "result_call a [c] = None \<and> map_of (retrievers a) (tool_name c) = Some r
        \<and> validate_args r c = Inl errs \<and> request ms = LLMToolCalls [c]"
  let ?a' = "a\<lparr>retrievers := AList.update (tool_name c)
                        (r\<lparr>current_retry := current_retry r + 1\<rparr>) (retrievers a)\<rparr>"
  from h have uk: "unknown_call (retrievers a) [c] = None" by simp
  have g: "gather (retrievers a) deps [c] (sched ms) =
           (AList.update (tool_name c) (r\<lparr>current_retry := current_retry r + 1\<rparr>) (retrievers a),
            if current_retry r + 1 \<le> max_retries r
            then Inr [ToolRetry (tool_name c) (ErrorList errs) (tool_id c)]
            else Inl (ValidationError errs))"
    using h by (intro gather_single_invalid) simp_all
  have hm: "handle_model_response a ms (request ms) deps (sched ms) =
      (?a', if current_retry r + 1 \<le> max_retries r
            then ms @ [LLM (LLMToolCalls [c]), ToolRetry (tool_name c) (ErrorList errs) (tool_id c)]
            else ms @ [LLM (LLMToolCalls [c])],
       if current_retry r + 1 \<le> max_retries r then Inr None else Inl (ValidationError errs))"
    using h uk g by (simp add: handle_dispatch)
  show "run_loop request sched a deps ms =
          (if current_retry r + 1 \<le> max_retries r
           then run_loop request sched ?a' deps
                  (ms @ [LLM (LLMToolCalls [c]), ToolRetry (tool_name c) (ErrorList errs) (tool_id c)])
           else Some (?a', Inl (ValidationError errs)))"
  proof (cases "current_retry r + 1 \<le> max_retries r")
    case True
    with hm show ?thesis by (simp add: run_loop_continue)
  next
    case False
    with hm show ?thesis by (simp add: run_loop_error)
  qed
qed

theorem tool_retries_reset_once_per_run_witness:
  "select_model sailing_agent None = Some (scripted [tides_turn ''T1'', tides_turn ''T2''])
   \<and> map_of (retrievers sailing_agent) ''tides'' = Some ((tool ''tides'' 1)\<lparr>current_retry := 1\<rparr>)
   \<and> map_of (retrievers (reset_retrievers sailing_agent)) ''tides'' = Some (tool ''tides'' 1)
   \<and> current_retry (tool ''tides'' 1) = 0
   \<and> agent_run sailing_agent (\<lambda>ms. []) ''tide?'' None None None =
       Some (sailing_agent\<lparr>retrievers :=
               [(''weather'', tool ''weather'' 1), (''tides'', (tool ''tides'' 1)\<lparr>current_retry := 2\<rparr>)]\<rparr>,
             Inl (ValidationError [city_error]))"
proof -
  let ?m = "scripted [tides_turn ''T1'', tides_turn ''T2'']"
  let ?am = "make_agent_model sailing_agent ?m"
  let ?sched = "\<lambda>ms::message list. []::nat list"
  let ?c1 = "city_call ''tides'' (PyInt 7) ''T1''"
  let ?c2 = "city_call ''tides'' (PyInt 7) ''T2''"
  let ?ms0 = "[UserPrompt ''tide?'']"
  let ?ms1 = "?ms0 @ [LLM (LLMToolCalls [?c1]), ToolRetry (tool_name ?c1) (ErrorList [city_error]) (tool_id ?c1)]"
  let ?a0 = "reset_retrievers sailing_agent"
  let ?r0 = "tool ''tides'' 1"
  let ?r1 = "?r0\<lparr>current_retry := current_retry ?r0 + 1\<rparr>"
  let ?a1 = "?a0\<lparr>retrievers := AList.update (tool_name ?c1) ?r1 (retrievers ?a0)\<rparr>"
  let ?a2 = "?a1\<lparr>retrievers := AList.update (tool_name ?c2)
                (?r1\<lparr>current_retry := current_retry ?r1 + 1\<rparr>) (retrievers ?a1)\<rparr>"
  note T = tool_retries_reset_once_per_run
  have sel: "select_model sailing_agent None = Some ?m"
    by (simp add: select_model_def sailing_agent_def)
  have st: "map_of (retrievers sailing_agent) ''tides'' = Some (?r0\<lparr>current_retry := 1\<rparr>)"
    by (simp add: sailing_agent_def)
  have z: "current_retry ?r0 = 0" "max_retries ?r0 = 1"
    by (simp_all add: tool_def get_weather_def)
  have ms0: "start_messages sailing_agent None (select_deps sailing_agent None) ''tide?'' = ?ms0"
    by (simp add: start_messages_def init_messages_def sailing_agent_def result_agent_def Agent_init_def)
  have dp: "select_deps sailing_agent None = ()" by simp
  have unfold: "agent_run sailing_agent ?sched ''tide?'' None None None =
      run_loop ?am ?sched ?a0 () ?ms0"
    using T[where a = sailing_agent and model_arg = None and m = ?m and sched = ?sched
        and p = "''tide?''" and h = None and deps_arg = None] sel ms0 by simp
  have rs: "map_of (retrievers ?a0) ''tides'' = Some ?r0"
    using T[where a = sailing_agent and model_arg = None and m = ?m] sel st
    by (simp add: tool_def get_weather_def)
  have q0: "?am ?ms0 = LLMToolCalls [?c1]"
    by (simp add: make_agent_model_def scripted_nth[where k = 0] is_llm_def tides_turn_def)
  have q1: "?am ?ms1 = LLMToolCalls [?c2]"
    by (simp add: make_agent_model_def scripted_nth[where k = 1] is_llm_def tides_turn_def)
  have rc0: "result_call ?a0 [?c1] = None"
    by (simp add: result_call_def reset_retrievers_def sailing_agent_def result_agent_def
        Agent_init_def final_result_def city_call_def)
  have rc1: "result_call ?a1 [?c2] = None"
    by (simp add: result_call_def reset_retrievers_def sailing_agent_def result_agent_def
        Agent_init_def final_result_def city_call_def)
  have n1: "tool_name ?c1 = ''tides''" "tool_name ?c2 = ''tides''" by (simp_all add: city_call_def)
  have v0: "validate_args ?r0 ?c1 = Inl [city_error]"
    by (simp add: validate_args_def tool_def get_weather_def city_call_def city_validator_def)
  have v1: "validate_args ?r1 ?c2 = Inl [city_error]"
    by (simp add: validate_args_def tool_def get_weather_def city_call_def city_validator_def)
  have m0: "map_of (retrievers ?a0) (tool_name ?c1) = Some ?r0" using rs n1 by simp
  have m1: "map_of (retrievers ?a1) (tool_name ?c2) = Some ?r1" using n1 by (simp add: update_conv')
  have turn1: "run_loop ?am ?sched ?a0 () ?ms0 = run_loop ?am ?sched ?a1 () ?ms1"
    using T[where a = ?a0 and c = ?c1 and r = ?r0 and errs = "[city_error]" and request = ?am
        and ms = ?ms0 and sched = ?sched and deps = "()"] rc0 m0 v0 q0 z by simp
  have turn2: "run_loop ?am ?sched ?a1 () ?ms1 = Some (?a2, Inl (ValidationError [city_error]))"
    using T[where a = ?a1 and c = ?c2 and r = ?r1 and errs = "[city_error]" and request = ?am
        and ms = ?ms1 and sched = ?sched and deps = "()"] rc1 m1 v1 q1 z by simp
  have fin: "?a2 = sailing_agent\<lparr>retrievers :=
               [(''weather'', tool ''weather'' 1), (''tides'', (tool ''tides'' 1)\<lparr>current_retry := 2\<rparr>)]\<rparr>"
    by (simp add: reset_retrievers_def reset_def sailing_agent_def city_call_def tool_def
        get_weather_def)
  from sel st rs z(1) unfold turn1 turn2 fin show ?thesis by simp
qed

text \<open>
  Claim C8.  No call of the turn is one the result schema is authoritative for, and
  some call names no registered retriever.  Then the turn raises for an unknown name
  of the batch, whatever the schedule: only the model's message has been appended,
  the agent is unchanged (no retriever has run), and the run ends with that exception.
\<close>

theorem unknown_tool_is_fatal:
  assumes "result_call a calls = None"
    and "\<exists>c\<in>set calls. map_of (retrievers a) (tool_name c) = None"
  shows "\<exists>c\<in>set calls. map_of (retrievers a) (tool_name c) = None
           \<and> (\<forall>evs. handle_model_response a ms (LLMToolCalls calls) deps evs =
                 (a, ms @ [LLM (LLMToolCalls calls)], Inl (UnknownFunctionName (tool_name c))))
           \<and> (\<forall>request sched. request ms = LLMToolCalls calls \<longrightarrow>
                 run_loop request sched a deps ms = Some (a, Inl (UnknownFunctionName (tool_name c))))"
proof -
  from unknown_call_Some[OF assms(2)] obtain c where c: "c \<in> set calls"
    "map_of (retrievers a) (tool_name c) = None"
    "unknown_call (retrievers a) calls = Some (UnknownFunctionName (tool_name c))" by blast
  have h: "handle_model_response a ms (LLMToolCalls calls) deps evs =
                 (a, ms @ [LLM (LLMToolCalls calls)], Inl (UnknownFunctionName (tool_name c)))" for evs
    using c(3) by (simp add: handle_dispatch[OF assms(1)])
  have "run_loop request sched a deps ms = Some (a, Inl (UnknownFunctionName (tool_name c)))"
    if "request ms = LLMToolCalls calls" for request sched
    using h[of "sched ms"] that by (simp add: run_loop_error)
  with c h show ?thesis by blast
qed

theorem unknown_tool_is_fatal_witness:
  "result_call tools_agent unknown_calls = None
   \<and> city_call ''moon'' (PyInt 7) ''B'' \<in> set unknown_calls
   \<and> map_of (retrievers tools_agent) (tool_name (city_call ''moon'' (PyInt 7) ''B'')) = None
   \<and> handle_model_response tools_agent [] (LLMToolCalls unknown_calls) () [0, 1] =
       (tools_agent, [LLM (LLMToolCalls unknown_calls)], Inl (UnknownFunctionName ''moon''))
   \<and> run_loop (\<lambda>ms. LLMToolCalls unknown_calls) (\<lambda>ms. [0, 1]) tools_agent () [] =
       Some (tools_agent, Inl (UnknownFunctionName ''moon''))"
proof -
  have h1: "result_call tools_agent unknown_calls = None"
    by (simp add: result_call_def unknown_calls_def agent_simps)
  have m: "city_call ''moon'' (PyInt 7) ''B'' \<in> set unknown_calls"
    by (simp add: unknown_calls_def)
  have n: "map_of (retrievers tools_agent) (tool_name (city_call ''moon'' (PyInt 7) ''B'')) = None"
    by (simp add: agent_simps)
  have w: "map_of (retrievers tools_agent) (tool_name (city_call ''weather'' (PyStr ''Paris'') ''A'')) \<noteq> None"
    by (simp add: agent_simps)
  from m n have h2: "\<exists>c\<in>set unknown_calls. map_of (retrievers tools_agent) (tool_name c) = None"
    by blast
  from unknown_tool_is_fatal[OF h1 h2, of "[]" "()"]
  obtain c where c: "c \<in> set unknown_calls" "map_of (retrievers tools_agent) (tool_name c) = None"
    and hc: "\<forall>evs. handle_model_response tools_agent [] (LLMToolCalls unknown_calls) () evs =
                 (tools_agent, [LLM (LLMToolCalls unknown_calls)], Inl (UnknownFunctionName (tool_name c)))"
    and rc: "\<forall>request sched. request [] = LLMToolCalls unknown_calls \<longrightarrow>
                 run_loop request sched tools_agent () [] =
                   Some (tools_agent, Inl (UnknownFunctionName (tool_name c)))"
    by auto
  from c w have "c = city_call ''moon'' (PyInt 7) ''B''" by (auto simp: unknown_calls_def)
  then have nm: "tool_name c = ''moon''" by (simp add: city_call_def)
  from hc nm have hh: "handle_model_response tools_agent [] (LLMToolCalls unknown_calls) () [0, 1] =
       (tools_agent, [LLM (LLMToolCalls unknown_calls)], Inl (UnknownFunctionName ''moon''))" by simp
  from rc nm have rr: "run_loop (\<lambda>ms. LLMToolCalls unknown_calls) (\<lambda>ms. [0, 1]) tools_agent () [] =
       Some (tools_agent, Inl (UnknownFunctionName ''moon''))" by simp
  from h1 m n hh rr show ?thesis by blast
qed

text \<open>
  Claim C10.  The constructor sets the result-retry counter to 0.  \<open>run\<close> starts its
  loop with the counter the agent has, and returns an agent whose counter is not below
  it: the retries of earlier runs stay counted.  When they have used up
  \<open>max_result_retries\<close>, the first result-validation failure of a later run ends it.
\<close>

theorem result_retries_accumulate_across_runs:
  "current_result_retry (Agent_init m0 t sp d n rr) = 0
   \<and> (select_model a model_arg = Some m \<longrightarrow>
        agent_run a sched p h model_arg deps_arg =
          run_loop (make_agent_model a m) sched (reset_retrievers a) (select_deps a deps_arg)
            (start_messages a h (select_deps a deps_arg) p)
        \<and> current_result_retry (reset_retrievers a) = current_result_retry a)
   \<and> (agent_run a sched p h model_arg deps_arg = Some (b, res) \<longrightarrow>
        current_result_retry a \<le> current_result_retry b
        \<and> max_result_retries b = max_result_retries a)
   \<and> (select_model a model_arg = Some m
        \<and> result_validation_fails (reset_retrievers a)
             (make_agent_model a m (start_messages a h (select_deps a deps_arg) p))
             (select_deps a deps_arg)
        \<and> max_result_retries a < current_result_retry a + 1 \<longrightarrow>
        agent_run a sched p h model_arg deps_arg =
          Some ((reset_retrievers a)\<lparr>current_result_retry := current_result_retry a + 1\<rparr>,
                Inl (ExceededMaximumRetries (max_result_retries a))))"
proof (intro conjI impI)
  show "current_result_retry (Agent_init m0 t sp d n rr) = 0" by (simp add: Agent_init_def)
next
  assume "select_model a model_arg = Some m"
  then show "agent_run a sched p h model_arg deps_arg =
          run_loop (make_agent_model a m) sched (reset_retrievers a) (select_deps a deps_arg)
            (start_messages a h (select_deps a deps_arg) p)"
    by (rule agent_run_unfold)
next
  show "current_result_retry (reset_retrievers a) = current_result_retry a" by simp
next
  assume r: "agent_run a sched p h model_arg deps_arg = Some (b, res)"
  show "current_result_retry a \<le> current_result_retry b"
  proof (cases "select_model a model_arg")
    case None
    with r show ?thesis by (simp add: agent_run_def)
  next
    case (Some m')
    from r[unfolded agent_run_unfold[OF Some]] run_loop_result_retry_mono
    show ?thesis by fastforce
  qed
next
  assume r: "agent_run a sched p h model_arg deps_arg = Some (b, res)"
  show "max_result_retries b = max_result_retries a"
  proof (cases "select_model a model_arg")
    case None
    with r show ?thesis by (simp add: agent_run_def)
  next
    case (Some m')
    from r[unfolded agent_run_unfold[OF Some]] run_loop_result_retry_mono
    show ?thesis by fastforce
  qed
next
  assume h: "select_model a model_arg = Some m
        \<and> result_validation_fails (reset_retrievers a)
             (make_agent_model a m (start_messages a h (select_deps a deps_arg) p))
             (select_deps a deps_arg)
        \<and> max_result_retries a < current_result_retry a + 1"
  let ?ms = "start_messages a h (select_deps a deps_arg) p"
  from h handle_result_failure[of "reset_retrievers a" "make_agent_model a m ?ms"
        "select_deps a deps_arg" ?ms "sched ?ms"]
  obtain ms' where "handle_model_response (reset_retrievers a) ?ms (make_agent_model a m ?ms)
        (select_deps a deps_arg) (sched ?ms) =
      ((reset_retrievers a)\<lparr>current_result_retry := current_result_retry a + 1\<rparr>, ms',
       Inl (ExceededMaximumRetries (max_result_retries a)))" by auto
  from run_loop_error[where request = "make_agent_model a m" and sched = sched, OF this] h
  show "agent_run a sched p h model_arg deps_arg =
          Some ((reset_retrievers a)\<lparr>current_result_retry := current_result_retry a + 1\<rparr>,
                Inl (ExceededMaximumRetries (max_result_retries a)))"
    by (simp add: agent_run_unfold)
qed

theorem result_retries_accumulate_across_runs_witness:
  "current_result_retry result_agent = 0
   \<and> agent_run asking_agent (\<lambda>ms. []) ''q'' None None None =
       Some (asking_agent\<lparr>current_result_retry := 1\<rparr>,
             Inr (RunResult (PyInt 42)
                    [UserPrompt ''q'', LLM bad_turn, missing_answer (answer_call [] ''R1''),
                     LLM good_turn] 0))
   \<and> current_result_retry asking_agent
       \<le> current_result_retry (asking_agent\<lparr>current_result_retry := 1\<rparr>)
   \<and> select_model (asking_agent\<lparr>current_result_retry := 1\<rparr>) None
       = Some (scripted [bad_turn, good_turn])
   \<and> max_result_retries (asking_agent\<lparr>current_result_retry := 1\<rparr>)
       < current_result_retry (asking_agent\<lparr>current_result_retry := 1\<rparr>) + 1
   \<and> agent_run (asking_agent\<lparr>current_result_retry := 1\<rparr>) (\<lambda>ms. []) ''q'' None None None =
       Some (asking_agent\<lparr>current_result_retry := 2\<rparr>, Inl (ExceededMaximumRetries 1))"
proof -
  let ?m = "scripted [bad_turn, good_turn]"
  let ?sched = "\<lambda>ms::message list. []::nat list"
  let ?b = "asking_agent\<lparr>current_result_retry := 1\<rparr>"
  let ?ms0 = "[UserPrompt ''q'']"
  let ?ms1 = "[UserPrompt ''q'', LLM bad_turn, missing_answer (answer_call [] ''R1'')]"
  note T = result_retries_accumulate_across_runs
  have i0: "current_result_retry result_agent = 0"
    unfolding result_agent_def
    by (rule T[THEN conjunct1])
  have sel: "select_model a None = Some ?m" if "model a = Some ?m" for a :: "unit agent"
    using that by (simp add: select_model_def)
  have mdl: "model asking_agent = Some ?m" "model ?b = Some ?m" by (simp_all add: asking_agent_def)
  have rst: "reset_retrievers asking_agent = asking_agent" "reset_retrievers ?b = ?b"
    by (simp_all add: reset_retrievers_def asking_agent_def result_agent_def Agent_init_def)
  have ms0: "start_messages a None () ''q'' = ?ms0" if "system_prompts a = []" "system_prompt_functions a = []"
    for a :: "unit agent"
    using that by (simp add: start_messages_def init_messages_def)
  have sp: "system_prompts asking_agent = []" "system_prompt_functions asking_agent = []"
    "system_prompts ?b = []" "system_prompt_functions ?b = []"
    by (simp_all add: asking_agent_def result_agent_def Agent_init_def)
  have q0: "make_agent_model a ?m ?ms0 = bad_turn" for a :: "unit agent"
    by (simp add: make_agent_model_def scripted_nth[where k = 0] is_llm_def)
  have q1: "make_agent_model a ?m ?ms1 = good_turn" for a :: "unit agent"
    by (simp add: make_agent_model_def scripted_nth[where k = 1] is_llm_def missing_answer_def)
  have h0: "handle_model_response asking_agent ?ms0 bad_turn () [] = (?b, ?ms1, Inr None)"
    by (simp add: handle_model_response_def bad_turn_def result_call_def asking_agent_def
        result_agent_def Agent_init_def final_result_def answer_call_def validate_result_call_def
        incr_result_retry_def Let_def)
  have h1: "handle_model_response ?b ?ms1 good_turn () [] =
              (?b, ?ms1 @ [LLM good_turn], Inr (Some (PyInt 42)))"
    by (simp add: handle_model_response_def good_turn_def result_call_def asking_agent_def
        result_agent_def Agent_init_def final_result_def answer_call_def validate_result_call_def
        Let_def)
  have l1: "run_loop (make_agent_model asking_agent ?m) ?sched ?b () ?ms1 =
              Some (?b, Inr (RunResult (PyInt 42) (?ms1 @ [LLM good_turn]) 0))"
    by (rule run_loop_result) (simp add: q1 h1)
  have l0: "run_loop (make_agent_model asking_agent ?m) ?sched asking_agent () ?ms0 =
              Some (?b, Inr (RunResult (PyInt 42) (?ms1 @ [LLM good_turn]) 0))"
    using run_loop_continue[where request = "make_agent_model asking_agent ?m" and sched = ?sched
        and a = asking_agent and deps = "()" and ms = ?ms0 and a' = ?b and ms' = ?ms1] q0 h0 l1
    by simp
  have run1: "agent_run asking_agent ?sched ''q'' None None None =
       Some (?b, Inr (RunResult (PyInt 42) (?ms1 @ [LLM good_turn]) 0))"
    using T[where a = asking_agent and model_arg = None and m = ?m and sched = ?sched
        and p = "''q''" and h = None and deps_arg = None, THEN conjunct2, THEN conjunct1] sel[OF mdl(1)] rst(1)
      ms0[OF sp(1,2)] l0
    by (simp add: select_deps_def)
  have mono: "current_result_retry asking_agent \<le> current_result_retry ?b"
    using T[where a = asking_agent and model_arg = None and sched = ?sched
        and p = "''q''" and h = None and deps_arg = None and b = ?b
        and res = "Inr (RunResult (PyInt 42) (?ms1 @ [LLM good_turn]) 0)", THEN conjunct2, THEN conjunct2, THEN conjunct1] run1
    by blast
  have mx: "max_result_retries ?b < current_result_retry ?b + 1"
    by (simp add: asking_agent_def result_agent_def Agent_init_def)
  have fl: "result_validation_fails (reset_retrievers ?b)
              (make_agent_model ?b ?m (start_messages ?b None (select_deps ?b None) ''q''))
              (select_deps ?b None)"
    unfolding rst(2) select_deps_def
    using ms0[OF sp(3,4)] q0[of ?b]
    by (simp add: bad_turn_fails[of _ 1] asking_agent_def result_agent_def Agent_init_def)
  have run2: "agent_run ?b ?sched ''q'' None None None =
       Some (asking_agent\<lparr>current_result_retry := 2\<rparr>, Inl (ExceededMaximumRetries 1))"
    using T[where a = ?b and model_arg = None and m = ?m and sched = ?sched
        and p = "''q''" and h = None and deps_arg = None, THEN conjunct2, THEN conjunct2, THEN conjunct2] sel[OF mdl(2)] fl mx rst(2)
    by (simp add: asking_agent_def result_agent_def Agent_init_def)
  from i0 run1 mono sel[OF mdl(2)] mx run2 show ?thesis by simp
qed

end
